theory Spec2Isabelle
  imports Complex_Main "HOL-Library.AList" "HOL-Library.Sublist"
begin

section \<open>The single-run service harness (\<^verbatim>\<open>dev/run_service_once.py\<close>)\<close>

text \<open>
  The development embeds \<^verbatim>\<open>RunService.try_run\<close> and
  \<^verbatim>\<open>RunService.load_service_manifest\<close>. Python exceptions are values of
  \<open>error\<close>; the filesystem, the log and the calls made on the service under test are
  explicit state; library functions that the module imports (YAML and JSON parsing, file
  identification, CaRT decoding, the service class, schema validation, the clock) are
  fields of an environment record.
\<close>

subsection \<open>Exceptions\<close>

datatype error =
    ValueError
  | ImportFailure
  | ManifestNotFound
  | YAMLError
  | AttributeError
  | KeyError
  | TypeError
  | FileNotFoundError
  | IsADirectoryError
  | NotADirectoryError
  | FileExistsError
  | SameFileError
  | ShutilError
  | CartError
  | NoResultJson
  | JSONDecodeError
  | InvalidHeuristicException
  | ValidationError
  | ServiceException

subsection \<open>Files and directories\<close>

text \<open>
  A path is its list of components; \<^verbatim>\<open>os.path.join\<close> is append,
  \<^verbatim>\<open>os.path.dirname\<close> is \<open>butlast\<close> and \<^verbatim>\<open>os.path.basename\<close> is \<open>last\<close>.
  The filesystem is a tree; a directory lists its entries by name, the first entry of a
  name being the one that counts.
\<close>

type_synonym bytes = string
type_synonym path = "string list"

datatype node = File bytes | Dir "(string \<times> node) list"

fun lookup :: "node \<Rightarrow> path \<Rightarrow> node option" where
  "lookup n [] = Some n"
| "lookup (File b) (c # cs) = None"
| "lookup (Dir es) (c # cs) = (case map_of es c of None \<Rightarrow> None | Some n \<Rightarrow> lookup n cs)"

definition exists :: "node \<Rightarrow> path \<Rightarrow> bool" where
  "exists fs p = (case lookup fs p of None \<Rightarrow> False | Some n \<Rightarrow> True)"

definition isfile :: "node \<Rightarrow> path \<Rightarrow> bool" where
  "isfile fs p = (case lookup fs p of Some (File b) \<Rightarrow> True | _ \<Rightarrow> False)"

definition isdir :: "node \<Rightarrow> path \<Rightarrow> bool" where
  "isdir fs p = (case lookup fs p of Some (Dir es) \<Rightarrow> True | _ \<Rightarrow> False)"

text \<open>
  \<open>store fs p n\<close> binds the last component of \<open>p\<close> to \<open>n\<close> in the directory
  \<open>butlast p\<close>, which has to exist; \<open>remove fs p\<close> drops that binding. Both are the
  primitive directory updates under the library calls below.
\<close>

fun store :: "node \<Rightarrow> path \<Rightarrow> node \<Rightarrow> node option" where
  "store fs [] n = None"
| "store (File b) (c # cs) n = None"
| "store (Dir es) [c] n = Some (Dir (AList.update c n es))"
| "store (Dir es) (c # d # cs) n =
     (case map_of es c of
        None \<Rightarrow> None
      | Some ch \<Rightarrow>
          (case store ch (d # cs) n of
             None \<Rightarrow> None
           | Some ch' \<Rightarrow> Some (Dir (AList.update c ch' es))))"

fun remove :: "node \<Rightarrow> path \<Rightarrow> node option" where
  "remove fs [] = None"
| "remove (File b) (c # cs) = None"
| "remove (Dir es) [c] =
     (case map_of es c of None \<Rightarrow> None | Some ch \<Rightarrow> Some (Dir (AList.delete c es)))"
| "remove (Dir es) (c # d # cs) =
     (case map_of es c of
        None \<Rightarrow> None
      | Some ch \<Rightarrow>
          (case remove ch (d # cs) of
             None \<Rightarrow> None
           | Some ch' \<Rightarrow> Some (Dir (AList.update c ch' es))))"

text \<open>\<^verbatim>\<open>open(p, 'rb').read()\<close>\<close>

definition read_file :: "node \<Rightarrow> path \<Rightarrow> error + bytes" where
  "read_file fs p =
     (case lookup fs p of
        None \<Rightarrow> Inl FileNotFoundError
      | Some (Dir es) \<Rightarrow> Inl IsADirectoryError
      | Some (File b) \<Rightarrow> Inr b)"

text \<open>
  \<^verbatim>\<open>open(p, 'wb')\<close> followed by writing \<open>b\<close>: the file is created or truncated;
  a directory at \<open>p\<close> or a missing parent directory raises.
\<close>

definition write_file :: "node \<Rightarrow> path \<Rightarrow> bytes \<Rightarrow> error + node" where
  "write_file fs p b =
     (if isdir fs p then Inl IsADirectoryError
      else (case store fs p (File b) of
              None \<Rightarrow> Inl FileNotFoundError
            | Some fs' \<Rightarrow> Inr fs'))"

text \<open>
  \<^verbatim>\<open>shutil.copyfile(src, dst)\<close>: refuses to copy a file onto itself, then reads
  the source and writes the destination.
\<close>

definition copyfile :: "node \<Rightarrow> path \<Rightarrow> path \<Rightarrow> error + node" where
  "copyfile fs src dst =
     (if src = dst then Inl SameFileError
      else (case read_file fs src of
              Inl e \<Rightarrow> Inl e
            | Inr b \<Rightarrow> write_file fs dst b))"

text \<open>
  \<^verbatim>\<open>shutil.move(src, dst)\<close>. When \<open>dst\<close> is an existing directory the entry is
  moved inside it under its own base name, and an entry of that name already there
  raises. Otherwise \<open>src\<close> is renamed to \<open>dst\<close>: a file replaces an existing file, a
  directory cannot replace a file, and a directory cannot be moved below itself.
\<close>

definition move :: "node \<Rightarrow> path \<Rightarrow> path \<Rightarrow> error + node" where
  "move fs src dst =
     (case lookup fs src of
        None \<Rightarrow> Inl FileNotFoundError
      | Some n \<Rightarrow>
          if src = [] then Inl ShutilError
          else if isdir fs dst \<and> src = dst then Inr fs
          else if isdir fs dst \<and> exists fs (dst @ [last src]) then Inl ShutilError
          else
            (let real_dst = (if isdir fs dst then dst @ [last src] else dst) in
             if src = real_dst then Inr fs
             else if strict_prefix src real_dst then Inl ShutilError
             else if isdir fs src \<and> exists fs real_dst then Inl FileExistsError
             else
               (case remove fs src of
                  None \<Rightarrow> Inl FileNotFoundError
                | Some fs1 \<Rightarrow>
                    (case store fs1 real_dst n of
                       None \<Rightarrow> Inl FileNotFoundError
                     | Some fs2 \<Rightarrow> Inr fs2))))"

text \<open>\<^verbatim>\<open>shutil.rmtree(p)\<close>: \<open>p\<close> has to be a directory; it goes with all below it.\<close>

definition rmtree :: "node \<Rightarrow> path \<Rightarrow> error + node" where
  "rmtree fs p =
     (case lookup fs p of
        None \<Rightarrow> Inl FileNotFoundError
      | Some (File b) \<Rightarrow> Inl NotADirectoryError
      | Some (Dir es) \<Rightarrow>
          (case remove fs p of None \<Rightarrow> Inl ShutilError | Some fs' \<Rightarrow> Inr fs'))"

text \<open>\<^verbatim>\<open>os.unlink(p)\<close>: \<open>p\<close> has to be a file.\<close>

definition unlink :: "node \<Rightarrow> path \<Rightarrow> error + node" where
  "unlink fs p =
     (case lookup fs p of
        None \<Rightarrow> Inl FileNotFoundError
      | Some (Dir es) \<Rightarrow> Inl IsADirectoryError
      | Some (File b) \<Rightarrow>
          (case remove fs p of None \<Rightarrow> Inl FileNotFoundError | Some fs' \<Rightarrow> Inr fs'))"

text \<open>
  \<^verbatim>\<open>os.makedirs(p)\<close>: creates \<open>p\<close> and every missing directory above it; raises
  when \<open>p\<close> exists already or when a component on the way is a file.
\<close>

fun chain :: "path \<Rightarrow> node" where
  "chain [] = Dir []"
| "chain (c # cs) = Dir [(c, chain cs)]"

fun makedirs :: "node \<Rightarrow> path \<Rightarrow> error + node" where
  "makedirs (File b) [] = Inl FileExistsError"
| "makedirs (File b) (c # cs) = Inl NotADirectoryError"
| "makedirs (Dir es) [] = Inl FileExistsError"
| "makedirs (Dir es) (c # cs) =
     (case map_of es c of
        None \<Rightarrow> Inr (Dir (es @ [(c, chain cs)]))
      | Some ch \<Rightarrow>
          (case makedirs ch cs of
             Inl e \<Rightarrow> Inl e
           | Inr ch' \<Rightarrow> Inr (Dir (AList.update c ch' es))))"

text \<open>\<^verbatim>\<open>os.listdir(p)\<close>, in the order of the directory's entries.\<close>

definition listdir :: "node \<Rightarrow> path \<Rightarrow> error + string list" where
  "listdir fs p =
     (case lookup fs p of
        None \<Rightarrow> Inl FileNotFoundError
      | Some (File b) \<Rightarrow> Inl NotADirectoryError
      | Some (Dir es) \<Rightarrow> Inr (remdups (map fst es)))"

subsection \<open>Data model\<close>

text \<open>
  \<open>file_info\<close> is the dictionary returned by \<^verbatim>\<open>identify.fileinfo\<close>; the task
  copies exactly these seven keys.
\<close>

record file_info =
  magic :: string
  md5 :: string
  mime :: string
  sha1 :: string
  sha256 :: string
  fsize :: nat
  ftype :: string

record task =
  sid :: string
  service_name :: string
  service_config :: "(string \<times> string) list"
  fileinfo :: file_info
  filename :: string
  max_files :: int
  ttl :: int

text \<open>
  The result document written by the service under test. An entry of
  \<^verbatim>\<open>response.extracted\<close> or \<^verbatim>\<open>response.supplementary\<close> carries the key
  \<^verbatim>\<open>path\<close> or not; a section's \<^verbatim>\<open>heuristic\<close> is null or a dictionary with a
  \<^verbatim>\<open>heur_id\<close>. The document is polymorphic in the heuristic dictionary: raw
  references before the transformation, resolved heuristics after it. Keys that the code
  only sets (\<^verbatim>\<open>created\<close>, \<^verbatim>\<open>archive_ts\<close>, \<^verbatim>\<open>expiry_ts\<close>) are optional.
\<close>

record file_entry =
  entry_name :: string
  entry_sha256 :: string
  entry_description :: string
  path :: "string option"

record raw_heuristic =
  heur_id :: int

record result_heuristic =
  res_heur_id :: int
  name :: string
  score :: int

record 'h result_section =
  title_text :: string
  body :: string
  heuristic :: "'h option"

record response_dict =
  extracted :: "file_entry list"
  supplementary :: "file_entry list"

record 'h result_dict =
  result_score :: int
  sections :: "'h result_section list"

type_synonym timestamp = real

record 'h result_doc =
  temp_submission_data :: "string option"
  response :: response_dict
  result :: "'h result_dict"
  created :: "timestamp option"
  archive_ts :: "timestamp option"
  expiry_ts :: "timestamp option"

text \<open>The heuristic catalog returned by \<^verbatim>\<open>get_heuristics()\<close>: id to name and score.\<close>

record heuristic_def =
  def_name :: string
  def_score :: int

type_synonym catalog = "int \<rightharpoonup> heuristic_def"

text \<open>
  The parsed service manifest. The three keys the code pops before validation are
  fields of their own; \<open>core\<close> stands for everything else the \<^verbatim>\<open>Service\<close> model
  validates. A submission parameter may lack \<^verbatim>\<open>name\<close> or \<^verbatim>\<open>default\<close>, which
  the dictionary comprehension answers with \<^verbatim>\<open>KeyError\<close>. A YAML document that is
  not a mapping has no \<^verbatim>\<open>get\<close>.
\<close>

record submission_param =
  param_name :: "string option"
  param_default :: "string option"

record manifest =
  core :: "(string \<times> string) list"
  file_required :: "string option"
  tool_version :: "string option"
  heuristics :: "(int \<times> heuristic_def) list option"
  config :: "(string \<times> string) list option"
  submission_params :: "submission_param list option"

datatype yaml = YMapping manifest | YOther

subsection \<open>The service under test, the environment, the state\<close>

text \<open>
  The service object offers \<^verbatim>\<open>start_service\<close> and \<^verbatim>\<open>handle_task\<close>; both act
  on the filesystem and may raise. The service class is its constructor, called with the
  manifest's \<^verbatim>\<open>config\<close>.
\<close>

record service =
  start_service :: "node \<Rightarrow> error + node"
  handle_task :: "task \<Rightarrow> node \<Rightarrow> error + node"

type_synonym service_class = "(string \<times> string) list \<Rightarrow> error + service"

text \<open>
  What the module imports or reads from its surroundings. \<open>clock\<close> gives the time
  (seconds since the epoch) read by the n-th call of \<^verbatim>\<open>now_as_iso\<close>;
  \<open>unpack_stream\<close> returns what it wrote to the output file and whether it raised.
\<close>

record env =
  tempdir :: path
  cwd :: path
  load_module_by_path :: "string \<Rightarrow> error + service_class"
  yaml_safe_load :: "bytes \<Rightarrow> error + yaml"
  validate_manifest :: "manifest \<Rightarrow> error option"
  identify_fileinfo :: "bytes \<Rightarrow> file_info"
  unpack_stream :: "bytes \<Rightarrow> bytes \<times> error option"
  get_random_id :: string
  json_load :: "bytes \<Rightarrow> error + raw_heuristic result_doc"
  get_heuristics :: catalog
  validate_result :: "result_heuristic result_doc \<Rightarrow> error option"
  pformat :: "result_heuristic result_dict \<Rightarrow> string list"
  clock :: "nat \<Rightarrow> timestamp"

text \<open>The module's globals, set from the command line.\<close>

record globals =
  SERVICE_PATH :: string
  SERVICE_NAME :: string
  FILE_PATH :: path
  debug :: bool

datatype level = DEBUG | INFO | ERROR

datatype message =
    ServiceNotFound
  | InvalidManifest error
  | FileNotFound path
  | UnCarted path
  | StartingTask string
  | InvalidResult error
  | ResultLine string
  | CleaningUp path
  | MovingResult path path
  | Completed path

datatype event = Log level message | StartService | HandleTask task

text \<open>
  The state threaded through a run: the filesystem, what was logged and called so far
  (oldest first), how often the clock was read, and the attributes of the
  \<^verbatim>\<open>RunService\<close> object.
\<close>

record state =
  fs :: node
  events :: "event list"
  ticks :: nat
  self_service :: "service option"
  self_service_class :: "service_class option"
  self_submission_params :: "(string \<times> string) list option"
  self_file_dir :: "path option"

definition emit :: "event \<Rightarrow> state \<Rightarrow> state" where
  "emit e st = st\<lparr>events := events st @ [e]\<rparr>"

definition lower_char :: "char \<Rightarrow> char" where
  "lower_char c =
     (let n = (of_char c :: nat) in if 65 \<le> n \<and> n \<le> 90 then char_of (n + 32) else c)"

definition lower :: "string \<Rightarrow> string" where
  "lower s = map lower_char s"

subsection \<open>Loading the manifest (\<^verbatim>\<open>load_service_manifest\<close>)\<close>

fun build_params ::
  "submission_param list \<Rightarrow> (string \<times> string) list \<Rightarrow> error + (string \<times> string) list" where
  "build_params [] acc = Inr acc"
| "build_params (x # xs) acc =
     (case param_name x of
        None \<Rightarrow> Inl KeyError
      | Some k \<Rightarrow>
          (case param_default x of
             None \<Rightarrow> Inl KeyError
           | Some v \<Rightarrow> build_params xs (AList.update k v acc)))"

definition pop_extra :: "manifest \<Rightarrow> manifest" where
  "pop_extra m = m\<lparr>file_required := None, tool_version := None, heuristics := None\<rparr>"

text \<open>
  The result is the exception raised, or the returned value: the manifest's heuristics
  when \<open>return_heuristics\<close> is set, \<^verbatim>\<open>None\<close> otherwise. A manifest that the
  \<^verbatim>\<open>Service\<close> model rejects is logged and loading goes on. The test
  \<^verbatim>\<open>if service_manifest_data\<close> only guards a \<^verbatim>\<open>get\<close> with default \<^verbatim>\<open>{}\<close>,
  so both of its branches are the lookup with that default.
  The \<^verbatim>\<open>Service\<close> object that line 187 stores in \<^verbatim>\<open>self.service\<close> is
  replaced at line 197 before anything reads it; \<open>self_service\<close> only ever holds the
  instance of the service under test.
\<close>

definition use_manifest_data ::
  "env \<Rightarrow> bool \<Rightarrow> manifest \<Rightarrow> state \<Rightarrow> (error + (int \<times> heuristic_def) list option) \<times> state" where
  "use_manifest_data env return_heuristics m st =
     (let heur = heuristics m;
          service_manifest_data = pop_extra m;
          st1 = (case validate_manifest env service_manifest_data of
                   Some e \<Rightarrow> emit (Log ERROR (InvalidManifest e)) st
                 | None \<Rightarrow> st);
          service_config = (case config service_manifest_data of None \<Rightarrow> [] | Some c \<Rightarrow> c);
          declared = (case submission_params service_manifest_data of None \<Rightarrow> [] | Some ps \<Rightarrow> ps)
      in case build_params declared [] of
           Inl e \<Rightarrow> (Inl e, st1)
         | Inr params \<Rightarrow>
             (let st2 = st1\<lparr>self_submission_params := Some params\<rparr> in
              case self_service_class st2 of
                None \<Rightarrow> (Inl TypeError, st2)
              | Some cls \<Rightarrow>
                  (case cls service_config of
                     Inl e \<Rightarrow> (Inl e, st2)
                   | Inr svc \<Rightarrow>
                       (Inr (if return_heuristics then heur else None),
                        st2\<lparr>self_service := Some svc\<rparr>))))"

definition load_service_manifest ::
  "env \<Rightarrow> bool \<Rightarrow> state \<Rightarrow> (error + (int \<times> heuristic_def) list option) \<times> state" where
  "load_service_manifest env return_heuristics st =
     (let service_manifest_yml = cwd env @ [''service_manifest.yml''] in
      if exists (fs st) service_manifest_yml then
        (case read_file (fs st) service_manifest_yml of
           Inl e \<Rightarrow> (Inl e, st)
         | Inr yml \<Rightarrow>
             (case yaml_safe_load env yml of
                Inl e \<Rightarrow> (Inl e, st)
              | Inr YOther \<Rightarrow> (Inl AttributeError, st)
              | Inr (YMapping m) \<Rightarrow> use_manifest_data env return_heuristics m st))
      else (Inl ManifestNotFound, st))"

subsection \<open>Identifying and unwrapping the input (lines 56 to 71)\<close>

text \<open>
  \<^verbatim>\<open>identify.fileinfo(path)\<close> reads the file at the path and describes its bytes.
  For a CaRT archive the output file is opened for writing, hence truncated, before
  \<^verbatim>\<open>unpack_stream\<close> reads the input; what \<^verbatim>\<open>unpack_stream\<close> wrote stays in
  place when it raises. The stage returns the final file info and \<open>target_file\<close>.
\<close>

definition fileinfo_at :: "env \<Rightarrow> node \<Rightarrow> path \<Rightarrow> error + file_info" where
  "fileinfo_at env fs0 p =
     (case read_file fs0 p of Inl e \<Rightarrow> Inl e | Inr b \<Rightarrow> Inr (identify_fileinfo env b))"

definition uncart ::
  "env \<Rightarrow> path \<Rightarrow> file_info \<Rightarrow> state \<Rightarrow> (error + file_info \<times> path) \<times> state" where
  "uncart env file_path file_info0 st =
     (let original_temp = tempdir env @ [sha256 file_info0] in
      case read_file (fs st) file_path of
        Inl e \<Rightarrow> (Inl e, st)
      | Inr b0 \<Rightarrow>
          (case write_file (fs st) original_temp [] of
             Inl e \<Rightarrow> (Inl e, st)
           | Inr fs1 \<Rightarrow>
               (case read_file fs1 file_path of
                  Inl e \<Rightarrow> (Inl e, st\<lparr>fs := fs1\<rparr>)
                | Inr b \<Rightarrow>
                    (case write_file fs1 original_temp (fst (unpack_stream env b)) of
                       Inl e \<Rightarrow> (Inl e, st\<lparr>fs := fs1\<rparr>)
                     | Inr fs2 \<Rightarrow>
                         (case snd (unpack_stream env b) of
                            Some e \<Rightarrow> (Inl e, st\<lparr>fs := fs2\<rparr>)
                          | None \<Rightarrow>
                              (case fileinfo_at env fs2 original_temp of
                                 Inl e \<Rightarrow> (Inl e, st\<lparr>fs := fs2\<rparr>)
                               | Inr file_info \<Rightarrow>
                                   (let target_file = tempdir env @ [sha256 file_info] in
                                    case move fs2 original_temp target_file of
                                      Inl e \<Rightarrow> (Inl e, st\<lparr>fs := fs2\<rparr>)
                                    | Inr fs3 \<Rightarrow>
                                        (Inr (file_info, target_file),
                                         emit (Log INFO (UnCarted target_file))
                                           (st\<lparr>fs := fs3\<rparr>)))))))))"

definition identify_file ::
  "env \<Rightarrow> path \<Rightarrow> state \<Rightarrow> (error + file_info \<times> path) \<times> state" where
  "identify_file env file_path st =
     (case fileinfo_at env (fs st) file_path of
        Inl e \<Rightarrow> (Inl e, st)
      | Inr file_info \<Rightarrow>
          if ftype file_info = ''archive/cart'' then uncart env file_path file_info st
          else
            (let target_file = tempdir env @ [sha256 file_info] in
             case copyfile (fs st) file_path target_file of
               Inl e \<Rightarrow> (Inl e, st)
             | Inr fs1 \<Rightarrow> (Inr (file_info, target_file), st\<lparr>fs := fs1\<rparr>)))"

subsection \<open>The task and the working directory (lines 74 to 98)\<close>

text \<open>
  \<^verbatim>\<open>self.submission_params\<close> is set by the time the task is built; were it still
  \<^verbatim>\<open>None\<close> the task would carry no parameters.
\<close>

definition create_task :: "env \<Rightarrow> globals \<Rightarrow> state \<Rightarrow> file_info \<Rightarrow> string \<Rightarrow> task" where
  "create_task env g st file_info file_name =
     \<lparr>sid = get_random_id env,
      service_name = SERVICE_NAME g,
      service_config = (case self_submission_params st of None \<Rightarrow> [] | Some ps \<Rightarrow> ps),
      fileinfo = \<lparr>magic = magic file_info, md5 = md5 file_info, mime = mime file_info,
                  sha1 = sha1 file_info, sha256 = sha256 file_info, fsize = fsize file_info,
                  ftype = ftype file_info\<rparr>,
      filename = file_name,
      max_files = 501,
      ttl = 3600\<rparr>"

definition set_working_dir :: "path \<Rightarrow> node \<Rightarrow> error option \<times> node" where
  "set_working_dir working_dir fs0 =
     (case (if isdir fs0 working_dir then rmtree fs0 working_dir else Inr fs0) of
        Inl e \<Rightarrow> (Some e, fs0)
      | Inr fs1 \<Rightarrow>
          if \<not> isdir fs1 working_dir then
            (case makedirs fs1 (working_dir @ [''working_directory'']) of
               Inl e \<Rightarrow> (Some e, fs1)
             | Inr fs2 \<Rightarrow> (None, fs2))
          else (None, fs1))"

subsection \<open>Collecting what the service left behind (lines 103 to 118)\<close>

fun move_files :: "path \<Rightarrow> path \<Rightarrow> string list \<Rightarrow> node \<Rightarrow> error option \<times> node" where
  "move_files source dest [] fs0 = (None, fs0)"
| "move_files source dest (f # files) fs0 =
     (case move fs0 (source @ [f]) dest of
        Inl e \<Rightarrow> (Some e, fs0)
      | Inr fs1 \<Rightarrow> move_files source dest files fs1)"

definition collect_staging :: "env \<Rightarrow> path \<Rightarrow> node \<Rightarrow> error option \<times> node" where
  "collect_staging env working_dir fs0 =
     (let source = tempdir env @ [''working_directory''] in
      case (if \<not> exists fs0 source then makedirs fs0 source else Inr fs0) of
        Inl e \<Rightarrow> (Some e, fs0)
      | Inr fs1 \<Rightarrow>
          (case listdir fs1 source of
             Inl e \<Rightarrow> (Some e, fs1)
           | Inr files \<Rightarrow>
               (case move_files source (working_dir @ [''working_directory'']) files fs1 of
                  (Some e, fs2) \<Rightarrow> (Some e, fs2)
                | (None, fs2) \<Rightarrow>
                    (case rmtree fs2 source of
                       Inl e \<Rightarrow> (Some e, fs2)
                     | Inr fs3 \<Rightarrow> (None, fs3)))))"

definition result_json_path :: "env \<Rightarrow> task \<Rightarrow> path" where
  "result_json_path env t =
     tempdir env @ [sid t @ ''_'' @ sha256 (fileinfo t) @ ''_result.json'']"

subsection \<open>Validating the generated result (lines 121 to 159)\<close>

definition pop_path :: "file_entry \<Rightarrow> file_entry" where
  "pop_path file = file\<lparr>path := None\<rparr>"

definition pop_paths :: "response_dict \<Rightarrow> response_dict" where
  "pop_paths r = \<lparr>extracted = map pop_path (extracted r),
                  supplementary = map pop_path (supplementary r)\<rparr>"

text \<open>
  Modelled from the spec: \<^verbatim>\<open>service_heuristic_to_result_heuristic\<close> of
  \<^verbatim>\<open>assemblyline.common.heuristics\<close> is not among the sources. Following section 4.5
  of the specification, it looks the reference's id up in the catalog: found, it returns
  the resolved record of id, name and score; not found, it raises
  \<^verbatim>\<open>InvalidHeuristicException\<close>.
\<close>

definition service_heuristic_to_result_heuristic ::
  "raw_heuristic \<Rightarrow> catalog \<Rightarrow> error + result_heuristic" where
  "service_heuristic_to_result_heuristic h cat =
     (case cat (heur_id h) of
        None \<Rightarrow> Inl InvalidHeuristicException
      | Some d \<Rightarrow> Inr \<lparr>res_heur_id = heur_id h, name = def_name d, score = def_score d\<rparr>)"

text \<open>
  One round of the loop over the sections (lines 134 to 143). The \<^verbatim>\<open>try\<close> yields
  the section's new heuristic and the new total; \<^verbatim>\<open>InvalidHeuristicException\<close> is
  caught and leaves the heuristic \<^verbatim>\<open>None\<close>. Line 143 then runs in either case: its
  right-hand side \<^verbatim>\<open>heuristics[heur_id]['name']\<close> is evaluated first, then the item
  assignment on the section's heuristic, which \<^verbatim>\<open>None\<close> does not support.
\<close>

definition try_resolve ::
  "catalog \<Rightarrow> raw_heuristic \<Rightarrow> int \<Rightarrow> error + result_heuristic option \<times> int" where
  "try_resolve cat h total_score =
     (case service_heuristic_to_result_heuristic h cat of
        Inr rh \<Rightarrow> Inr (Some rh, total_score + score rh)
      | Inl e \<Rightarrow> if e = InvalidHeuristicException then Inr (None, total_score) else Inl e)"

definition score_section ::
  "catalog \<Rightarrow> raw_heuristic result_section \<Rightarrow> int \<Rightarrow>
     error + result_heuristic result_section \<times> int" where
  "score_section cat sec total_score =
     (case heuristic sec of
        None \<Rightarrow>
          Inr (\<lparr>title_text = title_text sec, body = body sec, heuristic = None\<rparr>, total_score)
      | Some h \<Rightarrow>
          (case try_resolve cat h total_score of
             Inl e \<Rightarrow> Inl e
           | Inr (heur, total') \<Rightarrow>
               (case cat (heur_id h) of
                  None \<Rightarrow> Inl KeyError
                | Some d \<Rightarrow>
                    (case heur of
                       None \<Rightarrow> Inl TypeError
                     | Some rh \<Rightarrow>
                         Inr (\<lparr>title_text = title_text sec, body = body sec,
                               heuristic = Some (rh\<lparr>name := def_name d\<rparr>)\<rparr>, total')))))"

fun score_sections ::
  "catalog \<Rightarrow> raw_heuristic result_section list \<Rightarrow> int \<Rightarrow>
     error + result_heuristic result_section list \<times> int" where
  "score_sections cat [] total_score = Inr ([], total_score)"
| "score_sections cat (sec # secs) total_score =
     (case score_section cat sec total_score of
        Inl e \<Rightarrow> Inl e
      | Inr (sec', total') \<Rightarrow>
          (case score_sections cat secs total' of
             Inl e \<Rightarrow> Inl e
           | Inr (secs', total'') \<Rightarrow> Inr (sec' # secs', total'')))"

text \<open>
  Lines 124 to 144 on the parsed document: the temporary submission data and the paths are popped, the
  sections are transformed with the total starting at 0, and the total is stored as
  \<^verbatim>\<open>result['result']['score']\<close>. An exception leaves no result: the document is a
  local of the \<^verbatim>\<open>try\<close> block.
\<close>

definition transform_result ::
  "catalog \<Rightarrow> raw_heuristic result_doc \<Rightarrow> error + result_heuristic result_doc" where
  "transform_result cat r =
     (case score_sections cat (sections (result r)) 0 of
        Inl e \<Rightarrow> Inl e
      | Inr (secs, total_score) \<Rightarrow>
          Inr \<lparr>temp_submission_data = None,
               response = pop_paths (response r),
               result = \<lparr>result_score = total_score, sections = secs\<rparr>,
               created = created r,
               archive_ts = archive_ts r,
               expiry_ts = expiry_ts r\<rparr>)"

text \<open>\<^verbatim>\<open>now_as_iso(offset)\<close> reads the clock and adds the offset, in seconds.\<close>

definition now_as_iso :: "env \<Rightarrow> real \<Rightarrow> state \<Rightarrow> timestamp \<times> state" where
  "now_as_iso env offset st = (clock env (ticks st) + offset, st\<lparr>ticks := Suc (ticks st)\<rparr>)"

definition add_timestamps ::
  "env \<Rightarrow> task \<Rightarrow> 'h result_doc \<Rightarrow> state \<Rightarrow> 'h result_doc \<times> state" where
  "add_timestamps env t r st =
     (let (c, st1) = now_as_iso env 0 st;
          (a, st2) = now_as_iso env (1 * 24 * 60 * 60) st1;
          (x, st3) = now_as_iso env (real_of_int (ttl t) * 24 * 60 * 60) st2
      in (r\<lparr>created := Some c, archive_ts := Some a, expiry_ts := Some x\<rparr>, st3))"

definition debug_echo :: "env \<Rightarrow> result_heuristic result_doc \<Rightarrow> state \<Rightarrow> state" where
  "debug_echo env r st =
     st\<lparr>events := events st @ map (\<lambda>l. Log DEBUG (ResultLine l)) (pformat env (result r))\<rparr>"

definition try_block ::
  "env \<Rightarrow> globals \<Rightarrow> task \<Rightarrow> bytes \<Rightarrow> state \<Rightarrow> (error + result_heuristic result_doc) \<times> state" where
  "try_block env g t fh st =
     (case json_load env fh of
        Inl e \<Rightarrow> (Inl e, st)
      | Inr raw \<Rightarrow>
          (case transform_result (get_heuristics env) raw of
             Inl e \<Rightarrow> (Inl e, st)
           | Inr r \<Rightarrow>
               (case add_timestamps env t r st of
                  (r', st1) \<Rightarrow>
                    (case validate_result env r' of
                       Some e \<Rightarrow> (Inl e, st1)
                     | None \<Rightarrow> (Inr r', if debug g then debug_echo env r' st1 else st1)))))"

definition validate_generated_result ::
  "env \<Rightarrow> globals \<Rightarrow> task \<Rightarrow> path \<Rightarrow> state \<Rightarrow> error option \<times> state" where
  "validate_generated_result env g t result_json st =
     (case read_file (fs st) result_json of
        Inl e \<Rightarrow> (Some e, st)
      | Inr fh \<Rightarrow>
          (case try_block env g t fh st of
             (Inl e, st1) \<Rightarrow> (None, emit (Log ERROR (InvalidResult e)) st1)
           | (Inr r, st1) \<Rightarrow> (None, st1)))"

subsection \<open>Cleaning up and placing the result (lines 161 to 167)\<close>

definition finish :: "path \<Rightarrow> path \<Rightarrow> path \<Rightarrow> state \<Rightarrow> error option \<times> state" where
  "finish target_file result_json working_dir st =
     (let st1 = emit (Log INFO (CleaningUp target_file)) st in
      case unlink (fs st1) target_file of
        Inl e \<Rightarrow> (Some e, st1)
      | Inr fs1 \<Rightarrow>
          (let st2 = emit (Log INFO (MovingResult result_json (working_dir @ [''result.json'']))) 
                       (st1\<lparr>fs := fs1\<rparr>) in
           case move (fs st2) result_json (working_dir @ [''result.json'']) of
             Inl e \<Rightarrow> (Some e, st2)
           | Inr fs2 \<Rightarrow> (None, emit (Log INFO (Completed working_dir)) (st2\<lparr>fs := fs2\<rparr>))))"

subsection \<open>The run (\<^verbatim>\<open>try_run\<close>)\<close>

text \<open>Lines 102 to 167: everything after \<^verbatim>\<open>handle_task\<close> has returned.\<close>

definition after_handle ::
  "env \<Rightarrow> globals \<Rightarrow> task \<Rightarrow> path \<Rightarrow> path \<Rightarrow> state \<Rightarrow> error option \<times> state" where
  "after_handle env g t target_file working_dir st =
     (case collect_staging env working_dir (fs st) of
        (Some e, fs1) \<Rightarrow> (Some e, st\<lparr>fs := fs1\<rparr>)
      | (None, fs1) \<Rightarrow>
          (let st1 = st\<lparr>fs := fs1\<rparr>; result_json = result_json_path env t in
           if \<not> exists (fs st1) result_json then (Some NoResultJson, st1)
           else
             (case validate_generated_result env g t result_json st1 of
                (Some e, st2) \<Rightarrow> (Some e, st2)
              | (None, st2) \<Rightarrow> finish target_file result_json working_dir st2)))"

text \<open>Lines 46 to 100, once the input file is known to exist.\<close>

definition run_file :: "env \<Rightarrow> globals \<Rightarrow> state \<Rightarrow> error option \<times> state" where
  "run_file env g st0 =
     (let st = st0\<lparr>self_file_dir := Some (butlast (FILE_PATH g))\<rparr>;
          file_name = last (FILE_PATH g);
          working_dir = butlast (FILE_PATH g) @ [last (FILE_PATH g) @ ''_'' @ lower (SERVICE_NAME g)]
      in case self_service st of
           None \<Rightarrow> (Some AttributeError, st)
         | Some svc \<Rightarrow>
             (case start_service svc (fs st) of
                Inl e \<Rightarrow> (Some e, emit StartService st)
              | Inr fs1 \<Rightarrow>
                  (case identify_file env (FILE_PATH g) (emit StartService (st\<lparr>fs := fs1\<rparr>)) of
                     (Inl e, st1) \<Rightarrow> (Some e, st1)
                   | (Inr (file_info, target_file), st1) \<Rightarrow>
                       (let service_task = create_task env g st1 file_info file_name;
                            st2 = emit (Log INFO (StartingTask (sid service_task))) st1
                        in case set_working_dir working_dir (fs st2) of
                             (Some e, fs2) \<Rightarrow> (Some e, st2\<lparr>fs := fs2\<rparr>)
                           | (None, fs2) \<Rightarrow>
                               (case handle_task svc service_task fs2 of
                                  Inl e \<Rightarrow>
                                    (Some e, emit (HandleTask service_task) (st2\<lparr>fs := fs2\<rparr>))
                                | Inr fs3 \<Rightarrow>
                                    after_handle env g service_task target_file working_dir
                                      (emit (HandleTask service_task) (st2\<lparr>fs := fs3\<rparr>)))))))"

text \<open>
  Lines 32 to 44. A \<^verbatim>\<open>ValueError\<close> from the import is raised again as it is, any
  other exception after an error line in the log. The result is the exception that left
  \<^verbatim>\<open>try_run\<close>, or \<open>None\<close> when it returned.
\<close>

definition try_run :: "env \<Rightarrow> globals \<Rightarrow> state \<Rightarrow> error option \<times> state" where
  "try_run env g st =
     (case load_module_by_path env (SERVICE_PATH g) of
        Inl e \<Rightarrow>
          if e = ValueError then (Some e, st)
          else (Some e, emit (Log ERROR ServiceNotFound) st)
      | Inr cls \<Rightarrow>
          (case load_service_manifest env False (st\<lparr>self_service_class := Some cls\<rparr>) of
             (Inl e, st1) \<Rightarrow> (Some e, st1)
           | (Inr _, st1) \<Rightarrow>
               if \<not> isfile (fs st1) (FILE_PATH g)
               then (None, emit (Log INFO (FileNotFound (FILE_PATH g))) st1)
               else run_file env g st1))"

subsection \<open>The total the sections should add up to\<close>

text \<open>
  What a section contributes when its heuristic id is in the catalog, and 0 when it has
  no heuristic or an id the catalog does not know.
\<close>

definition resolved_score :: "catalog \<Rightarrow> raw_heuristic result_section \<Rightarrow> int" where
  "resolved_score cat sec =
     (case heuristic sec of
        None \<Rightarrow> 0
      | Some h \<Rightarrow> (case cat (heur_id h) of None \<Rightarrow> 0 | Some d \<Rightarrow> def_score d))"

subsection \<open>A concrete service, input and environment\<close>

text \<open>
  The fixtures used to run the definitions: a temp directory \<^verbatim>\<open>/tmp\<close>, a service
  directory \<^verbatim>\<open>/svc\<close> holding the manifest, and an input \<^verbatim>\<open>/samples/a.bin\<close>.
  The sample service declares heuristic 42, \<^verbatim>\<open>SUSPICIOUS_API\<close>, score 500; handling
  a task it drops one extracted file into the staging directory and, when given a result
  text, writes it as the result artifact.
\<close>

definition demo_catalog :: catalog where
  "demo_catalog = [42 \<mapsto> \<lparr>def_name = ''SUSPICIOUS_API'', def_score = 500\<rparr>]"

definition demo_section :: "int option \<Rightarrow> raw_heuristic result_section" where
  "demo_section i =
     \<lparr>title_text = ''API calls'', body = ''VirtualAlloc'',
      heuristic = (case i of None \<Rightarrow> None | Some k \<Rightarrow> Some \<lparr>heur_id = k\<rparr>)\<rparr>"

definition demo_raw :: "int option list \<Rightarrow> raw_heuristic result_doc" where
  "demo_raw ids =
     \<lparr>temp_submission_data = Some ''passwords'',
      response =
        \<lparr>extracted = [\<lparr>entry_name = ''dropped.bin'', entry_sha256 = ''sha-payload'',
                        entry_description = ''dropped file'',
                        path = Some ''/tmp/working_directory/dropped.bin''\<rparr>],
         supplementary = []\<rparr>,
      result = \<lparr>result_score = 0, sections = map demo_section ids\<rparr>,
      created = None, archive_ts = None, expiry_ts = None\<rparr>"

definition demo_manifest :: "string \<Rightarrow> manifest" where
  "demo_manifest nm =
     \<lparr>core = [(''name'', nm)],
      file_required = None,
      tool_version = Some ''1'',
      heuristics = Some [(42, \<lparr>def_name = ''SUSPICIOUS_API'', def_score = 500\<rparr>)],
      config = Some [(''depth'', ''2'')],
      submission_params = Some [\<lparr>param_name = Some ''deep'', param_default = Some ''no''\<rparr>]\<rparr>"

definition demo_handle_task :: "bytes option \<Rightarrow> task \<Rightarrow> node \<Rightarrow> error + node" where
  "demo_handle_task res t fs0 =
     (case makedirs fs0 [''tmp'', ''working_directory''] of
        Inl e \<Rightarrow> Inl e
      | Inr fs1 \<Rightarrow>
          (case write_file fs1 [''tmp'', ''working_directory'', ''dropped.bin''] ''payload'' of
             Inl e \<Rightarrow> Inl e
           | Inr fs2 \<Rightarrow>
               (case res of
                  None \<Rightarrow> Inr fs2
                | Some b \<Rightarrow>
                    write_file fs2
                      [''tmp'', sid t @ ''_'' @ sha256 (fileinfo t) @ ''_result.json''] b)))"

definition demo_service :: "bytes option \<Rightarrow> service" where
  "demo_service res = \<lparr>start_service = Inr, handle_task = demo_handle_task res\<rparr>"

definition demo_fileinfo :: "bytes \<Rightarrow> file_info" where
  "demo_fileinfo b =
     \<lparr>magic = ''data'', md5 = ''md5-'' @ b, mime = ''application/octet-stream'',
      sha1 = ''sha1-'' @ b, sha256 = ''sha-'' @ b, fsize = length b,
      ftype = (if take 4 b = ''CART'' then ''archive/cart'' else ''unknown'')\<rparr>"

text \<open>
  The manifest text \<^verbatim>\<open>ok\<close> parses to a manifest the \<^verbatim>\<open>Service\<close> model accepts,
  \<^verbatim>\<open>noname\<close> to one it rejects, \<^verbatim>\<open>list\<close> to a YAML list; the result text
  \<^verbatim>\<open>R42\<close> parses to a result whose section refers to heuristic 42, \<^verbatim>\<open>R42-7\<close> to one
  with a second section referring to the undeclared heuristic 7.
\<close>

definition demo_env :: "bytes option \<Rightarrow> env" where
  "demo_env res =
     \<lparr>tempdir = [''tmp''],
      cwd = [''svc''],
      load_module_by_path =
        (\<lambda>p. if p = ''demo.Demo'' then Inr (\<lambda>c. Inr (demo_service res)) else Inl ImportFailure),
      yaml_safe_load =
        (\<lambda>b. if b = ''ok'' then Inr (YMapping (demo_manifest ''Demo''))
              else if b = ''noname'' then Inr (YMapping (demo_manifest []))
              else if b = ''list'' then Inr YOther
              else Inl YAMLError),
      validate_manifest =
        (\<lambda>m. if map_of (core m) ''name'' = Some [] then Some ValidationError else None),
      identify_fileinfo = demo_fileinfo,
      unpack_stream = (\<lambda>b. if take 4 b = ''CART'' then (drop 4 b, None) else ([], Some CartError)),
      get_random_id = ''sid1'',
      json_load =
        (\<lambda>b. if b = ''R42'' then Inr (demo_raw [Some 42])
              else if b = ''R42-7'' then Inr (demo_raw [Some 42, Some 7])
              else Inl JSONDecodeError),
      get_heuristics = demo_catalog,
      validate_result = (\<lambda>r. None),
      pformat = (\<lambda>r. []),
      clock = (\<lambda>n. 1600000000 + real n / 1000000)\<rparr>"

definition demo_globals :: "path \<Rightarrow> globals" where
  "demo_globals p =
     \<lparr>SERVICE_PATH = ''demo.Demo'', SERVICE_NAME = ''demo'', FILE_PATH = p, debug = False\<rparr>"

definition demo_fs :: "bytes \<Rightarrow> bytes \<Rightarrow> node" where
  "demo_fs yml input =
     Dir [(''tmp'', Dir []),
          (''svc'', Dir [(''service_manifest.yml'', File yml)]),
          (''samples'', Dir [(''a.bin'', File input)])]"

definition demo_state :: "node \<Rightarrow> state" where
  "demo_state fs0 =
     \<lparr>fs = fs0, events = [], ticks = 0, self_service = None, self_service_class = None,
      self_submission_params = None, self_file_dir = None\<rparr>"

definition demo_task :: task where
  "demo_task =
     create_task (demo_env None) (demo_globals [''samples'', ''a.bin''])
       (demo_state (demo_fs ''ok'' ''hello'')) (demo_fileinfo ''hello'') ''a.bin''"

text \<open>
  The filesystem as the sample service leaves it after handling the task for
  \<^verbatim>\<open>/samples/a.bin\<close>: the canonical copy of the input and the staging directory in
  \<^verbatim>\<open>/tmp\<close>, the emptied workspace, and the result artifact when one is given.
\<close>

definition demo_handled_fs :: "bytes option \<Rightarrow> node" where
  "demo_handled_fs res =
     Dir [(''tmp'',
           Dir ([(''sha-hello'', File ''hello''),
                 (''working_directory'', Dir [(''dropped.bin'', File ''payload'')])]
                @ (case res of
                     None \<Rightarrow> []
                   | Some b \<Rightarrow> [(''sid1_sha-hello_result.json'', File b)]))),
          (''svc'', Dir [(''service_manifest.yml'', File ''ok'')]),
          (''samples'',
           Dir [(''a.bin'', File ''hello''),
                (''a.bin_demo'', Dir [(''working_directory'', Dir [])])])]"

section \<open>Properties\<close>

subsection \<open>Unfolding the definitions\<close>

lemmas fs_defs = exists_def isfile_def isdir_def read_file_def write_file_def copyfile_def
  move_def rmtree_def unlink_def listdir_def

lemmas run_defs = try_run_def run_file_def after_handle_def finish_def
  validate_generated_result_def try_block_def transform_result_def add_timestamps_def
  now_as_iso_def score_section_def try_resolve_def service_heuristic_to_result_heuristic_def
  collect_staging_def result_json_path_def set_working_dir_def create_task_def
  identify_file_def uncart_def fileinfo_at_def load_service_manifest_def use_manifest_data_def
  pop_extra_def emit_def lower_def lower_char_def debug_echo_def pop_paths_def pop_path_def

lemmas demo_defs = demo_env_def demo_globals_def demo_state_def demo_fs_def demo_service_def
  demo_handle_task_def demo_fileinfo_def demo_manifest_def demo_raw_def demo_section_def
  demo_catalog_def

subsection \<open>Scoring\<close>

text \<open>When every referenced heuristic is in the catalog the loop ends with the sum.\<close>

lemma score_section_resolved:
  assumes "\<forall>h. heuristic a = Some h \<longrightarrow> cat (heur_id h) \<noteq> None"
  shows "\<exists>a'. score_section cat a acc = Inr (a', acc + resolved_score cat a)"
proof (cases "heuristic a")
  case None
  then show ?thesis by (simp add: score_section_def resolved_score_def)
next
  case (Some h)
  with assms obtain d where "cat (heur_id h) = Some d" by auto
  with Some show ?thesis
    by (simp add: score_section_def try_resolve_def service_heuristic_to_result_heuristic_def
        resolved_score_def)
qed

lemma score_sections_resolved:
  "(\<forall>sec \<in> set secs. \<forall>h. heuristic sec = Some h \<longrightarrow> cat (heur_id h) \<noteq> None) \<Longrightarrow>
   \<exists>secs'. score_sections cat secs acc =
            Inr (secs', acc + sum_list (map (resolved_score cat) secs))"
proof (induction secs arbitrary: acc)
  case Nil
  then show ?case by simp
next
  case (Cons a secs)
  then obtain a' where a: "score_section cat a acc = Inr (a', acc + resolved_score cat a)"
    using score_section_resolved [of a cat acc] by auto
  from Cons obtain secs' where
    "score_sections cat secs (acc + resolved_score cat a)
       = Inr (secs', acc + resolved_score cat a + sum_list (map (resolved_score cat) secs))"
    by (metis list.set_intros(2))
  with a show ?case by (simp add: add.assoc)
qed

text \<open>
  One section whose heuristic id the catalog does not know ends the loop with
  \<^verbatim>\<open>KeyError\<close>, whatever the other sections are.
\<close>

lemma score_sections_unresolved:
  "sec \<in> set secs \<Longrightarrow> heuristic sec = Some h \<Longrightarrow> cat (heur_id h) = None \<Longrightarrow>
   score_sections cat secs acc = Inl KeyError"
proof (induction secs arbitrary: acc)
  case Nil
  then show ?case by simp
next
  case (Cons a secs)
  show ?case
  proof (cases "score_section cat a acc")
    case (Inl e)
    then have "e = KeyError"
      by (auto simp: score_section_def try_resolve_def service_heuristic_to_result_heuristic_def
          split: option.splits sum.splits if_splits)
    with Inl show ?thesis by simp
  next
    case (Inr x)
    then have "a \<noteq> sec" using Cons.prems
      by (auto simp: score_section_def try_resolve_def service_heuristic_to_result_heuristic_def
          split: option.splits sum.splits if_splits)
    then have "sec \<in> set secs" using Cons.prems by simp
    from Cons.IH [OF this Cons.prems(2,3)] Inr show ?thesis
      by (cases x) simp
  qed
qed

text \<open>
  Claim C1. The total score should be the sum over the sections whose heuristic id is in
  the catalog, a section with an unknown id counting 0. With heuristic 42 (score 500)
  declared and sections referring to 42 and to the undeclared 7, the expected total is
  500. The transformation raises \<^verbatim>\<open>KeyError\<close> at line 143 instead and no total is
  stored.
\<close>

theorem unresolved_section_leaves_no_total:
  "transform_result demo_catalog (demo_raw [Some 42, Some 7]) = Inl KeyError
   \<and> sum_list (map (resolved_score demo_catalog) (sections (result (demo_raw [Some 42, Some 7]))))
       = 500"
  by (simp add: transform_result_def score_section_def try_resolve_def resolved_score_def
      service_heuristic_to_result_heuristic_def demo_catalog_def demo_raw_def demo_section_def)

text \<open>
  Claim C4. A section with an unknown heuristic id should get a null heuristic, with the
  loop going on and the other sections counted. For the undeclared id 7 the round of the
  loop raises at line 143, after the \<^verbatim>\<open>except\<close> branch has set the heuristic to
  \<^verbatim>\<open>None\<close>; the section after it, worth 500, is never reached.
\<close>

theorem unknown_heuristic_aborts_scoring:
  "score_section demo_catalog (demo_section (Some 7)) 0 = Inl KeyError
   \<and> score_sections demo_catalog [demo_section (Some 7), demo_section (Some 42)] 0 = Inl KeyError
   \<and> (\<exists>secs. score_sections demo_catalog [demo_section (Some 42)] 0 = Inr (secs, 500))"
  by (simp add: score_section_def try_resolve_def
      service_heuristic_to_result_heuristic_def demo_catalog_def demo_section_def)

text \<open>The same two facts for the whole transformation of a parsed document.\<close>

lemma transform_result_resolved:
  assumes "\<forall>sec \<in> set (sections (result r)). \<forall>h. heuristic sec = Some h \<longrightarrow> cat (heur_id h) \<noteq> None"
  shows "\<exists>r'. transform_result cat r = Inr r'
            \<and> result_score (result r') = sum_list (map (resolved_score cat) (sections (result r)))"
proof -
  from score_sections_resolved [OF assms, of 0] obtain secs' where
    "score_sections cat (sections (result r)) 0
       = Inr (secs', 0 + sum_list (map (resolved_score cat) (sections (result r))))" ..
  then show ?thesis by (simp add: transform_result_def)
qed

lemma transform_result_unresolved:
  "sec \<in> set (sections (result r)) \<Longrightarrow> heuristic sec = Some h \<Longrightarrow> cat (heur_id h) = None \<Longrightarrow>
   transform_result cat r = Inl KeyError"
  by (simp add: transform_result_def score_sections_unresolved)

subsection \<open>Timestamps\<close>

lemma add_timestamps_fields:
  "created (fst (add_timestamps env t r st)) = Some (clock env (ticks st))"
  "archive_ts (fst (add_timestamps env t r st)) = Some (clock env (Suc (ticks st)) + 86400)"
  "expiry_ts (fst (add_timestamps env t r st)) =
     Some (clock env (Suc (Suc (ticks st))) + real_of_int (ttl t) * 86400)"
  by (simp_all add: add_timestamps_def now_as_iso_def)

text \<open>
  Claim C7, as stated: \<^verbatim>\<open>expiry_ts\<close> is \<^verbatim>\<open>created\<close> plus the task's ttl taken as
  seconds. It fails for the task the harness builds.
\<close>

theorem expiry_ts_not_created_plus_ttl_seconds:
  "expiry_ts (fst (add_timestamps (demo_env None) demo_task (demo_raw [])
                     (demo_state (demo_fs ''ok'' ''hello''))))
   \<noteq> Some (the (created (fst (add_timestamps (demo_env None) demo_task (demo_raw [])
                                (demo_state (demo_fs ''ok'' ''hello''))))) 
            + real_of_int (ttl demo_task))"
  by (simp add: add_timestamps_fields demo_env_def demo_state_def demo_task_def create_task_def)

text \<open>
  Claim C7, amended: \<^verbatim>\<open>expiry_ts\<close> is the time read by the third call of
  \<^verbatim>\<open>now_as_iso\<close> plus the task's ttl times 86400 seconds, the ttl counting days;
  for the task the harness builds, whose ttl is 3600, that is 3600 days.
\<close>

theorem expiry_ts_counts_ttl_in_days:
  "expiry_ts (fst (add_timestamps env t r st)) =
     Some (clock env (ticks st + 2) + real_of_int (ttl t) * (24 * 60 * 60))
   \<and> expiry_ts (fst (add_timestamps env (create_task env g st0 file_info file_name) r st)) =
     Some (clock env (ticks st + 2) + 3600 * (24 * 60 * 60))"
  by (simp add: add_timestamps_fields create_task_def)

text \<open>
  Claim C8, as stated: \<^verbatim>\<open>archive_ts\<close> is \<^verbatim>\<open>created\<close> plus exactly one day. The
  two stamps come from two readings of the clock; when it has moved on by a microsecond
  between them the difference is not one day.
\<close>

theorem archive_ts_not_created_plus_one_day:
  "archive_ts (fst (add_timestamps (demo_env None) demo_task (demo_raw [])
                      (demo_state (demo_fs ''ok'' ''hello''))))
   \<noteq> Some (the (created (fst (add_timestamps (demo_env None) demo_task (demo_raw [])
                                (demo_state (demo_fs ''ok'' ''hello''))))) 
            + 24 * 60 * 60)"
  by (simp add: add_timestamps_fields demo_env_def demo_state_def)

text \<open>
  Claim C8, amended: \<^verbatim>\<open>created\<close> is the time read by the first call of
  \<^verbatim>\<open>now_as_iso\<close>, and \<^verbatim>\<open>archive_ts\<close> is the time read by the second call plus
  exactly one day; their difference is one day plus what the clock moved between the two
  readings.
\<close>

theorem archive_ts_one_day_after_second_reading:
  "created (fst (add_timestamps env t r st)) = Some (clock env (ticks st))
   \<and> archive_ts (fst (add_timestamps env t r st)) = Some (clock env (ticks st + 1) + 24 * 60 * 60)
   \<and> the (archive_ts (fst (add_timestamps env t r st)))
       - the (created (fst (add_timestamps env t r st)))
       = 24 * 60 * 60 + (clock env (ticks st + 1) - clock env (ticks st))"
  by (simp add: add_timestamps_fields)

subsection \<open>The manifest and the missing input\<close>

lemma use_manifest_data_fs: "fs (snd (use_manifest_data env b m st)) = fs st"
  by (simp add: use_manifest_data_def Let_def emit_def split: option.splits sum.splits)

lemma load_service_manifest_fs: "fs (snd (load_service_manifest env b st)) = fs st"
  by (simp add: load_service_manifest_def Let_def use_manifest_data_fs
      split: option.splits sum.splits yaml.splits)

text \<open>With the service class and the manifest loaded and the input in place, the run is
  \<open>run_file\<close> from the state the loading left.\<close>

lemma try_run_with_input:
  assumes "load_module_by_path env (SERVICE_PATH g) = Inr cls"
    and "load_service_manifest env False (st\<lparr>self_service_class := Some cls\<rparr>) = (Inr v, st1)"
    and "isfile (fs st) (FILE_PATH g)"
  shows "try_run env g st = run_file env g st1"
proof -
  have "fs st1 = fs st"
    using load_service_manifest_fs [of env False "st\<lparr>self_service_class := Some cls\<rparr>"] assms(2)
    by simp
  with assms show ?thesis by (simp add: try_run_def)
qed

text \<open>
  Claim C9. When the service class loads, the manifest loads and the input path is not a
  file, \<^verbatim>\<open>try_run\<close> returns without an exception, the filesystem is what it was, and
  the last thing it did was to log that the file was not found.
\<close>

theorem missing_input_is_clean_noop:
  assumes "load_module_by_path env (SERVICE_PATH g) = Inr cls"
    and "fst (load_service_manifest env False (st\<lparr>self_service_class := Some cls\<rparr>)) = Inr v"
    and "\<not> isfile (fs st) (FILE_PATH g)"
  shows "fst (try_run env g st) = None
       \<and> fs (snd (try_run env g st)) = fs st
       \<and> events (snd (try_run env g st)) =
           events (snd (load_service_manifest env False (st\<lparr>self_service_class := Some cls\<rparr>)))
             @ [Log INFO (FileNotFound (FILE_PATH g))]"
proof -
  obtain st1 where l:
    "load_service_manifest env False (st\<lparr>self_service_class := Some cls\<rparr>) = (Inr v, st1)"
    using assms(2) by (cases "load_service_manifest env False (st\<lparr>self_service_class := Some cls\<rparr>)") simp
  have "fs st1 = fs st"
    using load_service_manifest_fs [of env False "st\<lparr>self_service_class := Some cls\<rparr>"] l
    by simp
  with assms(1,3) l show ?thesis
    by (simp add: try_run_def emit_def)
qed

theorem missing_input_is_clean_noop_witness:
  "fst (try_run (demo_env None) (demo_globals [''samples'', ''b.bin''])
          (demo_state (demo_fs ''ok'' ''hello''))) = None
   \<and> fs (snd (try_run (demo_env None) (demo_globals [''samples'', ''b.bin''])
                (demo_state (demo_fs ''ok'' ''hello'')))) = demo_fs ''ok'' ''hello''
   \<and> events (snd (try_run (demo_env None) (demo_globals [''samples'', ''b.bin''])
                    (demo_state (demo_fs ''ok'' ''hello''))))
       = [Log INFO (FileNotFound [''samples'', ''b.bin''])]"
  using missing_input_is_clean_noop
    [of "demo_env None" "demo_globals [''samples'', ''b.bin'']"
        "\<lambda>c. Inr (demo_service None)" "demo_state (demo_fs ''ok'' ''hello'')" None]
  by (simp add: run_defs fs_defs demo_defs Let_def)




subsection \<open>Lookups after directory updates\<close>

lemma lookup_store_same: "store r p n = Some r' \<Longrightarrow> lookup r' p = Some n"
  by (induction r p n arbitrary: r' rule: store.induct)
     (auto simp: update_conv' split: option.splits)

lemma lookup_store_other:
  "store r p n = Some r' \<Longrightarrow> \<not> prefix p q \<Longrightarrow> \<not> prefix q p \<Longrightarrow> lookup r' q = lookup r q"
proof (induction r p n arbitrary: r' q rule: store.induct)
  case (3 es c n)
  then show ?case by (cases q) (auto simp: update_conv')
next
  case (4 es c d cs n)
  then show ?case by (cases q) (auto simp: update_conv' split: option.splits)
qed auto

lemma store_keeps_file:
  "store r p n = Some r' \<Longrightarrow> lookup r q = Some (File b) \<Longrightarrow> \<not> prefix p q \<Longrightarrow>
   lookup r' q = Some (File b)"
proof (induction r p n arbitrary: r' q rule: store.induct)
  case (3 es c n)
  then show ?case by (cases q) (auto simp: update_conv' split: option.splits)
next
  case (4 es c d cs n)
  then show ?case by (cases q) (auto simp: update_conv' split: option.splits)
qed auto

lemma lookup_remove_below:
  "remove r p = Some r' \<Longrightarrow> prefix p q \<Longrightarrow> lookup r' q = None"
proof (induction r p arbitrary: r' q rule: remove.induct)
  case (3 es c)
  then show ?case by (cases q) (auto simp: delete_conv' split: option.splits)
next
  case (4 es c d cs)
  then show ?case by (cases q) (auto simp: update_conv' split: option.splits)
qed auto

lemma lookup_remove_other:
  "remove r p = Some r' \<Longrightarrow> \<not> prefix p q \<Longrightarrow> \<not> prefix q p \<Longrightarrow> lookup r' q = lookup r q"
proof (induction r p arbitrary: r' q rule: remove.induct)
  case (3 es c)
  then show ?case by (cases q) (auto simp: delete_conv' split: option.splits)
next
  case (4 es c d cs)
  then show ?case by (cases q) (auto simp: update_conv' split: option.splits)
qed auto

lemma remove_keeps_file:
  "remove r p = Some r' \<Longrightarrow> lookup r q = Some (File b) \<Longrightarrow> \<not> prefix p q \<Longrightarrow>
   lookup r' q = Some (File b)"
proof (induction r p arbitrary: r' q rule: remove.induct)
  case (3 es c)
  then show ?case by (cases q) (auto simp: delete_conv' split: option.splits)
next
  case (4 es c d cs)
  then show ?case by (cases q) (auto simp: update_conv' split: option.splits)
qed auto

lemma remove_dir_was_dir:
  "remove r p = Some r' \<Longrightarrow> lookup r' q = Some (Dir es') \<Longrightarrow> \<exists>es. lookup r q = Some (Dir es)"
proof (induction r p arbitrary: r' q es' rule: remove.induct)
  case (3 es c)
  then show ?case by (cases q) (auto simp: delete_conv' split: option.splits if_splits)
next
  case (4 es c d cs)
  then show ?case by (cases q) (auto simp: update_conv' split: option.splits if_splits)
qed auto

lemma lookup_below_file:
  "lookup r p = Some (File b) \<Longrightarrow> prefix p q \<Longrightarrow> q \<noteq> p \<Longrightarrow> lookup r q = None"
proof (induction r p arbitrary: q rule: lookup.induct)
  case (1 n)
  then show ?case by (cases q) auto
next
  case (3 es c cs)
  then show ?case by (cases q) (auto split: option.splits)
qed auto

lemma unlink_keeps_file:
  assumes "unlink r p = Inr r'" and "lookup r q = Some (File b)" and "q \<noteq> p"
  shows "lookup r' q = Some (File b)"
proof -
  from assms(1) obtain c where p: "lookup r p = Some (File c)" and rm: "remove r p = Some r'"
    by (auto simp: unlink_def split: option.splits node.splits)
  have "\<not> prefix p q"
    using lookup_below_file [OF p, of q] assms(2,3) by auto
  from remove_keeps_file [OF rm assms(2) this] show ?thesis .
qed

lemma unlink_isdir: "unlink r p = Inr r' \<Longrightarrow> isdir r' q \<Longrightarrow> isdir r q"
  by (auto simp: unlink_def isdir_def split: option.splits node.splits dest: remove_dir_was_dir)

lemma move_file_onto:
  assumes "move r src dst = Inr r'" and "lookup r src = Some (File b)" and "\<not> isdir r dst"
  shows "lookup r' dst = Some (File b)"
  using assms
  by (auto simp: move_def Let_def isdir_def split: if_splits option.splits
      dest: lookup_store_same)

subsection \<open>Collecting the staging directory\<close>

lemma lookup_append_dir:
  "lookup r (p @ [c]) = (case lookup r p of Some (Dir es) \<Rightarrow> map_of es c | _ \<Rightarrow> None)"
proof (induction r p rule: lookup.induct)
  case (1 n)
  then show ?case by (cases n) (auto split: option.splits)
qed (auto split: option.splits)

lemma store_parent_isdir: "store r (p @ [c]) n = Some r' \<Longrightarrow> isdir r' p"
  using lookup_store_same [of r "p @ [c]" n r']
  by (auto simp: lookup_append_dir isdir_def split: option.splits node.splits)

lemma lookup_chain: "\<not> prefix q cs \<Longrightarrow> lookup (chain cs) q = None"
proof (induction cs arbitrary: q)
  case Nil
  then show ?case by (cases q) auto
next
  case (Cons c cs)
  then show ?case by (cases q) auto
qed

lemma lookup_makedirs_other:
  "makedirs r p = Inr r' \<Longrightarrow> \<not> prefix q p \<Longrightarrow> lookup r' q = lookup r q"
proof (induction r p arbitrary: r' q rule: makedirs.induct)
  case (4 es c cs)
  show ?case
  proof (cases q)
    case Nil
    with 4 show ?thesis by simp
  next
    case (Cons d ds)
    with 4 show ?thesis
      by (auto simp: update_conv' map_add_def lookup_chain split: option.splits sum.splits)
  qed
qed auto

lemma move_into_dir:
  assumes "move r src dst = Inr r'" and "isdir r dst" and "src \<noteq> []"
    and "\<not> prefix src dst" and "\<not> prefix dst src"
  shows "\<exists>n r1. lookup r src = Some n \<and> remove r src = Some r1
               \<and> store r1 (dst @ [last src]) n = Some r'"
proof -
  have "src \<noteq> dst @ [last src]" using assms(5) by (metis prefixI)
  moreover have "src \<noteq> dst" using assms(4) by auto
  ultimately show ?thesis using assms(1,2)
    by (auto simp: move_def Let_def split: option.splits if_splits)
qed

lemma parallel_snoc:
  "q \<parallel> p \<Longrightarrow> q \<parallel> (p @ [f])"
  by (auto simp: parallel_def prefix_snoc dest: append_prefixD)

lemma snoc_parallel_snoc:
  "p \<parallel> d \<Longrightarrow> (p @ [f]) \<parallel> (d @ [g])"
  by (auto simp: parallel_def prefix_snoc dest: append_prefixD)

lemma snoc_parallel_same: "f \<noteq> g \<Longrightarrow> (p @ [f]) \<parallel> (p @ [g])"
  by (auto simp: parallel_def prefix_snoc)

lemma move_files_into_dir:
  assumes "move_files source dest files r = (None, r')" and "isdir r dest"
    and "distinct files" and "source \<parallel> dest"
  shows "isdir r' dest
       \<and> (\<forall>f \<in> set files. lookup r' (dest @ [f]) = lookup r (source @ [f]))
       \<and> (\<forall>q. (\<forall>g \<in> set files. q \<parallel> (source @ [g]) \<and> q \<parallel> (dest @ [g]))
              \<longrightarrow> lookup r' q = lookup r q)"
  using assms
proof (induction files arbitrary: r)
  case Nil
  then show ?case by simp
next
  case (Cons f files)
  from Cons.prems(1) obtain r1 where
    m: "move r (source @ [f]) dest = Inr r1" and
    rest: "move_files source dest files r1 = (None, r')"
    by (auto split: sum.splits)
  have sd: "\<not> prefix (source @ [f]) dest" "\<not> prefix dest (source @ [f])"
    using Cons.prems(4) by (auto simp: parallel_def prefix_snoc dest: append_prefixD)
  from move_into_dir [OF m Cons.prems(2) _ sd] obtain n r0 where
    n: "lookup r (source @ [f]) = Some n" and
    rm: "remove r (source @ [f]) = Some r0" and
    st: "store r0 (dest @ [f]) n = Some r1"
    by auto
  have d1: "isdir r1 dest" using store_parent_isdir [OF st] .
  have frame1: "lookup r1 q = lookup r q" if "q \<parallel> (source @ [f])" "q \<parallel> (dest @ [f])" for q
    using that lookup_store_other [OF st, of q] lookup_remove_other [OF rm, of q]
    by (auto simp: parallel_def)
  from Cons.IH [OF rest d1 _ Cons.prems(4)] Cons.prems(3)
  have ih: "isdir r' dest"
    "\<forall>g \<in> set files. lookup r' (dest @ [g]) = lookup r1 (source @ [g])"
    "\<forall>q. (\<forall>g \<in> set files. q \<parallel> (source @ [g]) \<and> q \<parallel> (dest @ [g]))
          \<longrightarrow> lookup r' q = lookup r1 q"
    by auto
  have ds: "dest \<parallel> source" using Cons.prems(4) by (simp add: parallel_commute)
  have here: "lookup r' (dest @ [f]) = lookup r (source @ [f])"
  proof -
    have "lookup r1 (dest @ [f]) = Some n" using lookup_store_same [OF st] .
    moreover have "\<forall>g \<in> set files. (dest @ [f]) \<parallel> (source @ [g]) \<and> (dest @ [f]) \<parallel> (dest @ [g])"
      using Cons.prems(3) ds by (auto intro: snoc_parallel_snoc snoc_parallel_same)
    then have "lookup r' (dest @ [f]) = lookup r1 (dest @ [f])" using ih(3) by blast
    ultimately show ?thesis using n by simp
  qed
  have others: "lookup r' (dest @ [g]) = lookup r (source @ [g])" if "g \<in> set files" for g
  proof -
    have "g \<noteq> f" using that Cons.prems(3) by auto
    then have "(source @ [g]) \<parallel> (source @ [f])" "(source @ [g]) \<parallel> (dest @ [f])"
      using Cons.prems(4) by (auto intro: snoc_parallel_snoc snoc_parallel_same)
    from frame1 [OF this] ih(2) that show ?thesis by simp
  qed
  have frame: "lookup r' q = lookup r q"
    if "\<forall>g \<in> set (f # files). q \<parallel> (source @ [g]) \<and> q \<parallel> (dest @ [g])" for q
  proof -
    from that have "lookup r' q = lookup r1 q" using ih(3) by simp
    moreover have "lookup r1 q = lookup r q" using that frame1 by simp
    ultimately show ?thesis by simp
  qed
  from ih(1) here others frame show ?case by auto
qed


lemma collect_staging_effect:
  assumes c: "collect_staging env wd r = (None, r')"
    and src: "source = tempdir env @ [''working_directory'']"
    and dst: "dest = wd @ [''working_directory'']"
    and d: "isdir r dest"
    and p: "source \<parallel> dest"
  shows "lookup r' source = None"
    and "\<And>q. q \<parallel> source \<Longrightarrow> q \<parallel> dest \<Longrightarrow> lookup r' q = lookup r q"
    and "\<And>f n. lookup r (source @ [f]) = Some n \<Longrightarrow> lookup r' (dest @ [f]) = Some n"
proof -
  from c obtain r1 files r2 where
    mk: "(if \<not> exists r source then makedirs r source else Inr r) = Inr r1" and
    ls: "listdir r1 source = Inr files" and
    mv: "move_files source dest files r1 = (None, r2)" and
    rt: "rmtree r2 source = Inr r'"
    unfolding collect_staging_def Let_def src [symmetric] dst [symmetric]
    by (auto split: sum.splits prod.splits option.splits)
  have a: "lookup r1 q = lookup r q" if "\<not> prefix q source" for q
    using mk that by (auto split: if_splits dest: lookup_makedirs_other)
  have d1: "isdir r1 dest" using a [of dest] d p by (simp add: isdir_def parallel_def)
  from ls obtain es where es: "lookup r1 source = Some (Dir es)" and fl: "files = remdups (map fst es)"
    by (auto simp: listdir_def split: option.splits node.splits)
  have dist: "distinct files" using fl by simp
  from move_files_into_dir [OF mv d1 dist p] have
    mf: "\<forall>f \<in> set files. lookup r2 (dest @ [f]) = lookup r1 (source @ [f])" and
    fr: "\<forall>q. (\<forall>g \<in> set files. q \<parallel> (source @ [g]) \<and> q \<parallel> (dest @ [g]))
            \<longrightarrow> lookup r2 q = lookup r1 q"
    by auto
  from rt have rm: "remove r2 source = Some r'"
    by (auto simp: rmtree_def split: option.splits node.splits)
  show "lookup r' source = None" using lookup_remove_below [OF rm, of source] by simp
  show "lookup r' q = lookup r q" if "q \<parallel> source" "q \<parallel> dest" for q
  proof -
    have "lookup r' q = lookup r2 q"
      using lookup_remove_other [OF rm, of q] that(1) by (simp add: parallel_def)
    moreover have "lookup r2 q = lookup r1 q"
      using fr that by (auto intro: parallel_snoc)
    moreover have "lookup r1 q = lookup r q" using a [of q] that(1) by (simp add: parallel_def)
    ultimately show ?thesis by simp
  qed
  show "lookup r' (dest @ [f]) = Some n" if "lookup r (source @ [f]) = Some n" for f n
  proof -
    have 1: "lookup r1 (source @ [f]) = Some n" using a [of "source @ [f]"] that by simp
    then have "map_of es f = Some n" using es by (simp add: lookup_append_dir)
    then have "f \<in> set files" using fl by (auto dest: map_of_SomeD intro: rev_image_eqI)
    with mf 1 have "lookup r2 (dest @ [f]) = Some n" by simp
    moreover have "(dest @ [f]) \<parallel> source"
      using p by (auto simp: parallel_def prefix_snoc dest: append_prefixD)
    then have "lookup r' (dest @ [f]) = lookup r2 (dest @ [f])"
      using lookup_remove_other [OF rm, of "dest @ [f]"] by (simp add: parallel_def)
    ultimately show ?thesis by simp
  qed
qed

text \<open>
  Claim C6, as stated: when no result artifact exists after \<^verbatim>\<open>handle_task\<close>, the
  harness aborts after the canonical temp input has been deleted. In the run of the
  sample service that writes no result, \<^verbatim>\<open>try_run\<close> raises and the canonical copy of
  the input is still in the temp directory.
\<close>

theorem missing_result_leaves_temp_input:
  "fst (try_run (demo_env None) (demo_globals [''samples'', ''a.bin''])
          (demo_state (demo_fs ''ok'' ''hello''))) = Some NoResultJson
   \<and> lookup (fs (snd (try_run (demo_env None) (demo_globals [''samples'', ''a.bin''])
                         (demo_state (demo_fs ''ok'' ''hello'')))))
        [''tmp'', ''sha-hello''] = Some (File ''hello'')"
  by (simp add: run_defs fs_defs demo_defs Let_def)

text \<open>
  Claim C6, amended: when the staging directory has been collected and no result
  artifact exists at the expected path, the part of the run after \<^verbatim>\<open>handle_task\<close>
  raises with the state as the collection left it, so before the temp input would be
  unlinked and before the result would be placed in the workspace. Where the workspace's
  artifact directory exists and neither it, the staging directory nor the temp input lies
  inside another of them, the temp input is still what it was, the staging directory is
  gone, and every entry the service had staged is in the workspace's artifact directory
  under its name.
\<close>

theorem missing_result_aborts_before_cleanup:
  assumes "fst (collect_staging env wd (fs st)) = None"
    and "\<not> exists (snd (collect_staging env wd (fs st))) (result_json_path env t)"
    and "isdir (fs st) (wd @ [''working_directory''])"
    and "(tempdir env @ [''working_directory'']) \<parallel> (wd @ [''working_directory''])"
    and "target \<parallel> (tempdir env @ [''working_directory''])"
    and "target \<parallel> (wd @ [''working_directory''])"
  shows "after_handle env g t target wd st =
           (Some NoResultJson, st\<lparr>fs := snd (collect_staging env wd (fs st))\<rparr>)
       \<and> lookup (fs (snd (after_handle env g t target wd st))) target = lookup (fs st) target
       \<and> lookup (fs (snd (after_handle env g t target wd st)))
           (tempdir env @ [''working_directory'']) = None
       \<and> (\<forall>f n. lookup (fs st) (tempdir env @ [''working_directory''] @ [f]) = Some n \<longrightarrow>
             lookup (fs (snd (after_handle env g t target wd st)))
               (wd @ [''working_directory''] @ [f]) = Some n)"
proof -
  obtain r' where c: "collect_staging env wd (fs st) = (None, r')"
    using assms(1) by (cases "collect_staging env wd (fs st)") simp
  have ah: "after_handle env g t target wd st = (Some NoResultJson, st\<lparr>fs := r'\<rparr>)"
    using c assms(2) by (simp add: after_handle_def Let_def)
  note eff = collect_staging_effect [OF c refl refl assms(3,4)]
  from ah c eff(1) eff(2) [OF assms(5,6)] eff(3) show ?thesis by simp
qed

theorem missing_result_aborts_before_cleanup_witness:
  "fst (after_handle (demo_env None) (demo_globals [''samples'', ''a.bin'']) demo_task
          [''tmp'', ''sha-hello''] [''samples'', ''a.bin_demo'']
          (demo_state (demo_handled_fs None))) = Some NoResultJson
   \<and> lookup (fs (snd (after_handle (demo_env None) (demo_globals [''samples'', ''a.bin''])
                         demo_task [''tmp'', ''sha-hello''] [''samples'', ''a.bin_demo'']
                         (demo_state (demo_handled_fs None)))))
        [''tmp'', ''sha-hello''] = Some (File ''hello'')
   \<and> lookup (fs (snd (after_handle (demo_env None) (demo_globals [''samples'', ''a.bin''])
                         demo_task [''tmp'', ''sha-hello''] [''samples'', ''a.bin_demo'']
                         (demo_state (demo_handled_fs None)))))
        [''tmp'', ''working_directory''] = None
   \<and> lookup (fs (snd (after_handle (demo_env None) (demo_globals [''samples'', ''a.bin''])
                         demo_task [''tmp'', ''sha-hello''] [''samples'', ''a.bin_demo'']
                         (demo_state (demo_handled_fs None)))))
        [''samples'', ''a.bin_demo'', ''working_directory'', ''dropped.bin'']
       = Some (File ''payload'')"
proof -
  let ?st = "demo_state (demo_handled_fs None)"
  have c: "collect_staging (demo_env None) [''samples'', ''a.bin_demo''] (fs ?st) =
             (None, Dir [(''tmp'', Dir [(''sha-hello'', File ''hello'')]),
                         (''svc'', Dir [(''service_manifest.yml'', File ''ok'')]),
                         (''samples'',
                          Dir [(''a.bin'', File ''hello''),
                               (''a.bin_demo'',
                                Dir [(''working_directory'',
                                      Dir [(''dropped.bin'', File ''payload'')])])])])"
    by (simp add: collect_staging_def fs_defs demo_env_def demo_state_def demo_handled_fs_def)
  have r: "result_json_path (demo_env None) demo_task = [''tmp'', ''sid1_sha-hello_result.json'']"
    by (simp add: result_json_path_def demo_task_def create_task_def demo_env_def demo_fileinfo_def)
  have h1: "fst (collect_staging (demo_env None) [''samples'', ''a.bin_demo''] (fs ?st)) = None"
    unfolding c by simp
  have h2: "\<not> exists (snd (collect_staging (demo_env None) [''samples'', ''a.bin_demo''] (fs ?st)))
                (result_json_path (demo_env None) demo_task)"
    unfolding c r by (simp add: exists_def)
  have h3: "isdir (fs ?st) ([''samples'', ''a.bin_demo''] @ [''working_directory''])"
    by (simp add: isdir_def demo_state_def demo_handled_fs_def)
  have h4: "(tempdir (demo_env None) @ [''working_directory''])
              \<parallel> ([''samples'', ''a.bin_demo''] @ [''working_directory''])"
    by (simp add: parallel_def demo_env_def)
  have h5: "[''tmp'', ''sha-hello''] \<parallel> (tempdir (demo_env None) @ [''working_directory''])"
    by (simp add: parallel_def demo_env_def)
  have h6: "[''tmp'', ''sha-hello''] \<parallel> ([''samples'', ''a.bin_demo''] @ [''working_directory''])"
    by (simp add: parallel_def)
  have l1: "lookup (fs ?st) [''tmp'', ''sha-hello''] = Some (File ''hello'')"
    by (simp add: demo_state_def demo_handled_fs_def)
  have l2: "lookup (fs ?st) (tempdir (demo_env None) @ [''working_directory''] @ [''dropped.bin''])
              = Some (File ''payload'')"
    by (simp add: demo_state_def demo_handled_fs_def demo_env_def)
  have t: "tempdir (demo_env None) = [''tmp'']" by (simp add: demo_env_def)
  note th = missing_result_aborts_before_cleanup
         [OF h1 h2 h3 h4 h5 h6, of "demo_globals [''samples'', ''a.bin'']"]
  have a: "fst (after_handle (demo_env None) (demo_globals [''samples'', ''a.bin'']) demo_task
                  [''tmp'', ''sha-hello''] [''samples'', ''a.bin_demo''] ?st) = Some NoResultJson"
    using th [THEN conjunct1] by simp
  note b = th [THEN conjunct2, THEN conjunct1, unfolded l1]
  note c' = th [THEN conjunct2, THEN conjunct2, THEN conjunct1, unfolded t]
  have d: "lookup (fs (snd (after_handle (demo_env None) (demo_globals [''samples'', ''a.bin''])
                              demo_task [''tmp'', ''sha-hello''] [''samples'', ''a.bin_demo''] ?st)))
             ([''samples'', ''a.bin_demo''] @ [''working_directory''] @ [''dropped.bin''])
           = Some (File ''payload'')"
    using th [THEN conjunct2, THEN conjunct2, THEN conjunct2] l2 by blast
  from a b c' d show ?thesis by simp
qed

subsection \<open>The persisted result\<close>

lemma validate_generated_result_fs:
  "fs (snd (validate_generated_result env g t rj st)) = fs st"
  by (simp add: validate_generated_result_def try_block_def add_timestamps_def now_as_iso_def
      debug_echo_def emit_def Let_def split: sum.splits option.splits prod.splits)

lemma validate_generated_result_reads:
  "validate_generated_result env g t rj st = (None, st1) \<Longrightarrow>
   \<exists>b. lookup (fs st) rj = Some (File b)"
  by (auto simp: validate_generated_result_def read_file_def split: option.splits node.splits)

lemma finish_places_file:
  assumes "finish target rj wd st = (None, st')"
    and "lookup (fs st) rj = Some (File b)"
    and "\<not> isdir (fs st) (wd @ [''result.json''])"
  shows "lookup (fs st') (wd @ [''result.json'']) = Some (File b)"
proof -
  from assms(1) obtain fs1 fs2 where
    u: "unlink (fs st) target = Inr fs1" and
    m: "move fs1 rj (wd @ [''result.json'']) = Inr fs2" and
    e: "fs st' = fs2"
    by (auto simp: finish_def Let_def emit_def split: sum.splits)
  have "rj \<noteq> target"
  proof
    assume "rj = target"
    with u have "lookup fs1 rj = None"
      by (auto simp: unlink_def split: option.splits node.splits dest: lookup_remove_below)
    with m show False by (simp add: move_def)
  qed
  from unlink_keeps_file [OF u assms(2) this] have "lookup fs1 rj = Some (File b)" .
  moreover have "\<not> isdir fs1 (wd @ [''result.json''])"
    using unlink_isdir [OF u] assms(3) by blast
  ultimately show ?thesis using move_file_onto [OF m] e by simp
qed

lemma result_json_beside_staging:
  "result_json_path env t \<parallel> (tempdir env @ [''working_directory''])"
proof -
  have "sid t @ ''_'' @ sha256 (fileinfo t) @ ''_result.json'' \<noteq> ''working_directory''"
  proof
    assume "sid t @ ''_'' @ sha256 (fileinfo t) @ ''_result.json'' = ''working_directory''"
    then have "last ((sid t @ ''_'' @ sha256 (fileinfo t)) @ ''_result.json'')
                 = last ''working_directory''"
      by simp
    then have "last ''_result.json'' = last ''working_directory''"
      by (simp only: last_appendR [of "''_result.json''"] list.distinct not_False_eq_True)
    then show False by simp
  qed
  then show ?thesis unfolding result_json_path_def by (rule snoc_parallel_same)
qed

text \<open>
  Claim C3. Take the part of the run after \<^verbatim>\<open>handle_task\<close> and let it complete. The
  result artifact is the file found at its expected path once the staging directory has
  been collected; where the workspace's artifact directory exists and lies apart from the
  staging directory and from the artifact's path, it is the file the service left there.
  Provided the service left no directory named \<^verbatim>\<open>result.json\<close> in the workspace,
  the file at \<^verbatim>\<open>result.json\<close> in the workspace at the end has the bytes of that
  artifact; and validating the result, which covers every step of the normalization,
  leaves the whole filesystem as it was.
\<close>

theorem persisted_result_is_raw_artifact:
  assumes "fst (after_handle env g t target wd st) = None"
    and "\<not> isdir (snd (collect_staging env wd (fs st))) (wd @ [''result.json''])"
  shows "(\<exists>b. lookup (snd (collect_staging env wd (fs st))) (result_json_path env t) = Some (File b)
             \<and> lookup (fs (snd (after_handle env g t target wd st))) (wd @ [''result.json''])
                 = Some (File b)
             \<and> (isdir (fs st) (wd @ [''working_directory''])
                  \<and> (tempdir env @ [''working_directory'']) \<parallel> (wd @ [''working_directory''])
                  \<and> result_json_path env t \<parallel> (wd @ [''working_directory''])
                \<longrightarrow> lookup (fs st) (result_json_path env t) = Some (File b)))
       \<and> fs (snd (validate_generated_result env g t rj st0)) = fs st0"
proof -
  obtain st' where a: "after_handle env g t target wd st = (None, st')"
    using assms(1) by (cases "after_handle env g t target wd st") simp
  obtain x fs1 where c: "collect_staging env wd (fs st) = (x, fs1)"
    by (cases "collect_staging env wd (fs st)")
  with a have x: "x = None" by (cases x) (auto simp: after_handle_def)
  let ?st1 = "st\<lparr>fs := fs1\<rparr>"
  from a c x obtain st2 where
    v: "validate_generated_result env g t (result_json_path env t) ?st1 = (None, st2)" and
    f: "finish target (result_json_path env t) wd st2 = (None, st')"
    by (auto simp: after_handle_def Let_def split: if_splits prod.splits option.splits)
  from validate_generated_result_reads [OF v] obtain b where
    b: "lookup fs1 (result_json_path env t) = Some (File b)" by auto
  have s: "fs st2 = fs1"
    using validate_generated_result_fs [of env g t "result_json_path env t" ?st1] v by simp
  from finish_places_file [OF f] b s assms(2) c
  have p: "lookup (fs st') (wd @ [''result.json'']) = Some (File b)" by simp
  have d: "lookup (fs st) (result_json_path env t) = Some (File b)"
    if "isdir (fs st) (wd @ [''working_directory''])"
      "(tempdir env @ [''working_directory'']) \<parallel> (wd @ [''working_directory''])"
      "result_json_path env t \<parallel> (wd @ [''working_directory''])"
    using collect_staging_effect(2)
            [OF c [unfolded x] refl refl that(1,2) result_json_beside_staging that(3)] b
    by simp
  from a b c p d show ?thesis by (simp add: validate_generated_result_fs)
qed

theorem persisted_result_is_raw_artifact_witness:
  "fst (after_handle (demo_env None) (demo_globals [''samples'', ''a.bin'']) demo_task
          [''tmp'', ''sha-hello''] [''samples'', ''a.bin_demo'']
          (demo_state (demo_handled_fs (Some ''R42'')))) = None
   \<and> lookup (demo_handled_fs (Some ''R42'')) [''tmp'', ''sid1_sha-hello_result.json'']
       = Some (File ''R42'')
   \<and> lookup (fs (snd (after_handle (demo_env None) (demo_globals [''samples'', ''a.bin'']) demo_task
                         [''tmp'', ''sha-hello''] [''samples'', ''a.bin_demo'']
                         (demo_state (demo_handled_fs (Some ''R42''))))))
        [''samples'', ''a.bin_demo'', ''result.json''] = Some (File ''R42'')"
proof -
  let ?st = "demo_state (demo_handled_fs (Some ''R42''))"
  let ?g = "demo_globals [''samples'', ''a.bin'']"
  have c: "collect_staging (demo_env None) [''samples'', ''a.bin_demo''] (fs ?st) =
             (None, Dir [(''tmp'', Dir [(''sha-hello'', File ''hello''),
                                        (''sid1_sha-hello_result.json'', File ''R42'')]),
                         (''svc'', Dir [(''service_manifest.yml'', File ''ok'')]),
                         (''samples'',
                          Dir [(''a.bin'', File ''hello''),
                               (''a.bin_demo'',
                                Dir [(''working_directory'',
                                      Dir [(''dropped.bin'', File ''payload'')])])])])"
    by (simp add: collect_staging_def fs_defs demo_env_def demo_state_def demo_handled_fs_def)
  have a: "fst (after_handle (demo_env None) ?g demo_task [''tmp'', ''sha-hello'']
                  [''samples'', ''a.bin_demo''] ?st) = None"
    unfolding after_handle_def c
    by (simp add: run_defs fs_defs demo_defs demo_task_def Let_def)
  have d: "\<not> isdir (snd (collect_staging (demo_env None) [''samples'', ''a.bin_demo''] (fs ?st)))
               ([''samples'', ''a.bin_demo''] @ [''result.json''])"
    unfolding c by (simp add: isdir_def)
  have r: "result_json_path (demo_env None) demo_task = [''tmp'', ''sid1_sha-hello_result.json'']"
    by (simp add: result_json_path_def demo_task_def create_task_def demo_env_def demo_fileinfo_def)
  have h: "isdir (fs ?st) ([''samples'', ''a.bin_demo''] @ [''working_directory''])
         \<and> (tempdir (demo_env None) @ [''working_directory''])
             \<parallel> ([''samples'', ''a.bin_demo''] @ [''working_directory''])
         \<and> [''tmp'', ''sid1_sha-hello_result.json'']
             \<parallel> ([''samples'', ''a.bin_demo''] @ [''working_directory''])"
    by (simp add: isdir_def parallel_def demo_state_def demo_handled_fs_def demo_env_def)
  have f: "fs ?st = demo_handled_fs (Some ''R42'')" by (simp add: demo_state_def)
  from persisted_result_is_raw_artifact [OF a d, THEN conjunct1, unfolded r] h
  obtain b where
    1: "lookup (fs (snd (after_handle (demo_env None) ?g demo_task [''tmp'', ''sha-hello'']
                           [''samples'', ''a.bin_demo''] ?st)))
          ([''samples'', ''a.bin_demo''] @ [''result.json'']) = Some (File b)" and
    2: "lookup (fs ?st) [''tmp'', ''sid1_sha-hello_result.json''] = Some (File b)"
    by blast
  have l: "lookup (demo_handled_fs (Some ''R42'')) [''tmp'', ''sid1_sha-hello_result.json'']
             = Some (File ''R42'')"
    by (simp add: demo_handled_fs_def)
  from 2 l f have "b = ''R42''" by simp
  with 1 a l show ?thesis by simp
qed

text \<open>
  Claim C2, as stated: no entry of \<^verbatim>\<open>extracted\<close> or \<^verbatim>\<open>supplementary\<close> in the
  persisted \<^verbatim>\<open>result.json\<close> has a path. In the sample run, which completes, the
  persisted file is the text the service wrote, and that text parses to a result whose
  extracted entry still has its path.
\<close>

theorem persisted_result_keeps_paths:
  "fst (try_run (demo_env (Some ''R42'')) (demo_globals [''samples'', ''a.bin''])
          (demo_state (demo_fs ''ok'' ''hello''))) = None
   \<and> lookup (fs (snd (try_run (demo_env (Some ''R42'')) (demo_globals [''samples'', ''a.bin''])
                         (demo_state (demo_fs ''ok'' ''hello'')))))
        [''samples'', ''a.bin_demo'', ''result.json''] = Some (File ''R42'')
   \<and> json_load (demo_env (Some ''R42'')) ''R42'' = Inr (demo_raw [Some 42])
   \<and> map path (extracted (response (demo_raw [Some 42])))
       = [Some ''/tmp/working_directory/dropped.bin'']"
  by (simp add: run_defs fs_defs demo_defs Let_def)

text \<open>
  What the \<^verbatim>\<open>try\<close> block does once the artifact has parsed and the transformation has
  gone through: it stamps the transformed document and hands it to the validation, whose
  verdict alone decides between an exception and the document.
\<close>

lemma try_block_transformed:
  assumes "json_load env fh = Inr raw" and "transform_result (get_heuristics env) raw = Inr r"
  shows "fst (try_block env g t fh st) =
           (case validate_result env (fst (add_timestamps env t r st)) of
              Some e \<Rightarrow> Inl e
            | None \<Rightarrow> Inr (fst (add_timestamps env t r st)))"
  using assms
  by (simp add: try_block_def split: prod.splits option.splits)

lemma add_timestamps_response: "response (fst (add_timestamps env t r st)) = response r"
  by (simp add: add_timestamps_def now_as_iso_def)

lemma transform_result_response:
  "transform_result cat raw = Inr r \<Longrightarrow> response r = pop_paths (response raw)"
  by (auto simp: transform_result_def split: sum.splits)

text \<open>A completed run places the artifact it found, byte for byte.\<close>

lemma after_handle_places_artifact:
  assumes "fst (after_handle env g t target wd st) = None"
    and "\<not> isdir (snd (collect_staging env wd (fs st))) (wd @ [''result.json''])"
  shows "\<exists>b. lookup (snd (collect_staging env wd (fs st))) (result_json_path env t) = Some (File b)
            \<and> lookup (fs (snd (after_handle env g t target wd st))) (wd @ [''result.json''])
                = Some (File b)"
proof -
  obtain st' where a: "after_handle env g t target wd st = (None, st')"
    using assms(1) by (cases "after_handle env g t target wd st") simp
  obtain x fs1 where c: "collect_staging env wd (fs st) = (x, fs1)"
    by (cases "collect_staging env wd (fs st)")
  with a have x: "x = None" by (cases x) (auto simp: after_handle_def)
  from a c x obtain st2 where
    v: "validate_generated_result env g t (result_json_path env t) (st\<lparr>fs := fs1\<rparr>) = (None, st2)"
    and f: "finish target (result_json_path env t) wd st2 = (None, st')"
    by (auto simp: after_handle_def Let_def split: if_splits prod.splits option.splits)
  from validate_generated_result_reads [OF v] obtain b where
    b: "lookup fs1 (result_json_path env t) = Some (File b)" by auto
  have "fs st2 = fs1"
    using validate_generated_result_fs [of env g t "result_json_path env t" "st\<lparr>fs := fs1\<rparr>"] v
    by simp
  with finish_places_file [OF f] b assms(2) c
  have "lookup (fs st') (wd @ [''result.json'']) = Some (File b)" by simp
  with a b c show ?thesis by simp
qed

text \<open>
  Claim C2, amended. Whenever the result artifact parses and the transformation goes
  through, whether or not the validation then accepts the document: no entry of
  \<^verbatim>\<open>extracted\<close> or \<^verbatim>\<open>supplementary\<close> in the transformed document has a path, the
  document handed to the validation is the transformed one with its timestamps and has
  the same entries, and the \<^verbatim>\<open>try\<close> block and the whole validation step write no
  file. And when those bytes are the artifact found after the staging directory was
  collected, the run completes and no directory named \<^verbatim>\<open>result.json\<close> is in the
  workspace, the persisted \<^verbatim>\<open>result.json\<close> holds exactly those bytes: it parses to
  the raw document, paths included.
\<close>

theorem normalized_copy_has_no_paths:
  assumes "json_load env fh = Inr raw"
    and "transform_result (get_heuristics env) raw = Inr r"
  shows "(\<forall>e \<in> set (extracted (response r)) \<union> set (supplementary (response r)). path e = None)
       \<and> fst (try_block env g t fh st0) =
           (case validate_result env (fst (add_timestamps env t r st0)) of
              Some e \<Rightarrow> Inl e
            | None \<Rightarrow> Inr (fst (add_timestamps env t r st0)))
       \<and> response (fst (add_timestamps env t r st0)) = response r
       \<and> fs (snd (try_block env g t fh st0)) = fs st0
       \<and> fs (snd (validate_generated_result env g t rj st0)) = fs st0
       \<and> (lookup (snd (collect_staging env wd (fs st))) (result_json_path env t) = Some (File fh)
            \<and> fst (after_handle env g t target wd st) = None
            \<and> \<not> isdir (snd (collect_staging env wd (fs st))) (wd @ [''result.json''])
          \<longrightarrow> lookup (fs (snd (after_handle env g t target wd st))) (wd @ [''result.json''])
                = Some (File fh)
              \<and> json_load env fh = Inr raw)"
proof -
  have 1: "\<forall>e \<in> set (extracted (response r)) \<union> set (supplementary (response r)). path e = None"
    using transform_result_response [OF assms(2)]
    by (auto simp: pop_paths_def pop_path_def)
  have 4: "fs (snd (try_block env g t fh st0)) = fs st0"
    by (simp add: try_block_def add_timestamps_def now_as_iso_def debug_echo_def Let_def
        split: sum.splits option.splits prod.splits)
  have 6: "lookup (fs (snd (after_handle env g t target wd st))) (wd @ [''result.json''])
             = Some (File fh)"
    if "lookup (snd (collect_staging env wd (fs st))) (result_json_path env t) = Some (File fh)"
      "fst (after_handle env g t target wd st) = None"
      "\<not> isdir (snd (collect_staging env wd (fs st))) (wd @ [''result.json''])"
    using after_handle_places_artifact [OF that(2,3)] that(1) by auto
  from 1 try_block_transformed [OF assms] add_timestamps_response 4
    validate_generated_result_fs 6 assms(1)
  show ?thesis by blast
qed

theorem normalized_copy_has_no_paths_witness:
  "map path (extracted (response (projr (transform_result demo_catalog (demo_raw [Some 42])))))
     = [None]
   \<and> supplementary (response (projr (transform_result demo_catalog (demo_raw [Some 42])))) = []
   \<and> lookup (fs (snd (after_handle (demo_env None) (demo_globals [''samples'', ''a.bin''])
                         demo_task [''tmp'', ''sha-hello''] [''samples'', ''a.bin_demo'']
                         (demo_state (demo_handled_fs (Some ''R42''))))))
        [''samples'', ''a.bin_demo'', ''result.json''] = Some (File ''R42'')
   \<and> json_load (demo_env None) ''R42'' = Inr (demo_raw [Some 42])
   \<and> map path (extracted (response (demo_raw [Some 42])))
       = [Some ''/tmp/working_directory/dropped.bin'']"
proof -
  let ?e = "demo_env None"
  let ?g = "demo_globals [''samples'', ''a.bin'']"
  let ?st = "demo_state (demo_handled_fs (Some ''R42''))"
  have j: "json_load ?e ''R42'' = Inr (demo_raw [Some 42])" by (simp add: demo_env_def)
  have "\<exists>r. transform_result demo_catalog (demo_raw [Some 42]) = Inr r"
    by (simp add: transform_result_def score_section_def try_resolve_def
        service_heuristic_to_result_heuristic_def demo_catalog_def demo_raw_def demo_section_def)
  then obtain r where tr: "transform_result demo_catalog (demo_raw [Some 42]) = Inr r" ..
  have h: "get_heuristics ?e = demo_catalog" by (simp add: demo_env_def)
  have c: "collect_staging ?e [''samples'', ''a.bin_demo''] (fs ?st) =
             (None, Dir [(''tmp'', Dir [(''sha-hello'', File ''hello''),
                                        (''sid1_sha-hello_result.json'', File ''R42'')]),
                         (''svc'', Dir [(''service_manifest.yml'', File ''ok'')]),
                         (''samples'',
                          Dir [(''a.bin'', File ''hello''),
                               (''a.bin_demo'',
                                Dir [(''working_directory'',
                                      Dir [(''dropped.bin'', File ''payload'')])])])])"
    by (simp add: collect_staging_def fs_defs demo_env_def demo_state_def demo_handled_fs_def)
  have rj: "result_json_path ?e demo_task = [''tmp'', ''sid1_sha-hello_result.json'']"
    by (simp add: result_json_path_def demo_task_def create_task_def demo_env_def demo_fileinfo_def)
  have a1: "lookup (snd (collect_staging ?e [''samples'', ''a.bin_demo''] (fs ?st)))
              (result_json_path ?e demo_task) = Some (File ''R42'')"
    unfolding c rj by simp
  have a2: "fst (after_handle ?e ?g demo_task [''tmp'', ''sha-hello'']
                   [''samples'', ''a.bin_demo''] ?st) = None"
    unfolding after_handle_def c
    by (simp add: run_defs fs_defs demo_defs demo_task_def Let_def)
  have a3: "\<not> isdir (snd (collect_staging ?e [''samples'', ''a.bin_demo''] (fs ?st)))
                ([''samples'', ''a.bin_demo''] @ [''result.json''])"
    unfolding c by (simp add: isdir_def)
  note th = normalized_copy_has_no_paths [OF j tr [folded h],
      where g = ?g and t = demo_task and st0 = ?st and st = ?st
        and wd = "[''samples'', ''a.bin_demo'']" and target = "[''tmp'', ''sha-hello'']"]
  have p: "\<forall>e \<in> set (extracted (response r)) \<union> set (supplementary (response r)). path e = None"
    using th by blast
  have len: "length (extracted (response (projr (transform_result demo_catalog (demo_raw [Some 42])))))
               = 1"
    "supplementary (response (projr (transform_result demo_catalog (demo_raw [Some 42])))) = []"
    by (simp_all add: transform_result_def score_section_def try_resolve_def pop_paths_def
        service_heuristic_to_result_heuristic_def demo_catalog_def demo_raw_def demo_section_def)
  with tr obtain x where x: "extracted (response r) = [x]"
    by (cases "extracted (response r)") auto
  with p have m: "map path (extracted (response r)) = [None]" by simp
  have f: "lookup (fs (snd (after_handle ?e ?g demo_task [''tmp'', ''sha-hello'']
                              [''samples'', ''a.bin_demo''] ?st)))
             ([''samples'', ''a.bin_demo''] @ [''result.json'']) = Some (File ''R42'')"
    using th a1 a2 a3 by blast
  have q: "map path (extracted (response (demo_raw [Some 42])))
             = [Some ''/tmp/working_directory/dropped.bin'']"
    by (simp add: demo_raw_def)
  from m len(2) f j q tr show ?thesis by simp
qed

subsection \<open>Writing and renaming inside a directory\<close>

lemma store_in_dir: "lookup r p = Some (Dir es) \<Longrightarrow> \<exists>r'. store r (p @ [c]) n = Some r'"
proof (induction p arbitrary: r es)
  case Nil
  then show ?case by simp
next
  case (Cons a p)
  from Cons.prems obtain ds ch where r: "r = Dir ds" and ch: "map_of ds a = Some ch"
    and l: "lookup ch p = Some (Dir es)"
    by (cases r) (auto split: option.splits)
  from Cons.IH [OF l] obtain ch' where s: "store ch (p @ [c]) n = Some ch'" by blast
  obtain d cs where dc: "p @ [c] = d # cs" by (cases "p @ [c]") auto
  with r ch s show ?case by simp
qed

lemma remove_existing: "lookup r p = Some n \<Longrightarrow> p \<noteq> [] \<Longrightarrow> \<exists>r'. remove r p = Some r'"
proof (induction p arbitrary: r n)
  case Nil
  then show ?case by simp
next
  case (Cons a p)
  from Cons.prems obtain ds ch where r: "r = Dir ds" and ch: "map_of ds a = Some ch"
    and l: "lookup ch p = Some n"
    by (cases r) (auto split: option.splits)
  show ?case
  proof (cases p)
    case Nil
    with r ch show ?thesis by simp
  next
    case (Cons d cs)
    with Cons.IH [OF l] obtain ch' where "remove ch (d # cs) = Some ch'" by auto
    with r ch Cons show ?thesis by simp
  qed
qed

lemma lookup_prefix_isdir:
  "lookup r q = Some n \<Longrightarrow> prefix p q \<Longrightarrow> p \<noteq> q \<Longrightarrow> isdir r p"
proof (induction p arbitrary: r q)
  case Nil
  then show ?case by (cases q; cases r) (auto simp: isdir_def)
next
  case (Cons a p)
  from Cons.prems(2) obtain q' where q: "q = a # q'" and pq: "prefix p q'"
    by (cases q) auto
  from Cons.prems(1) q obtain ds ch where r: "r = Dir ds" and ch: "map_of ds a = Some ch"
    and l: "lookup ch q' = Some n"
    by (cases r) (auto split: option.splits)
  from Cons.IH [OF l pq] Cons.prems(3) q have "isdir ch p" by simp
  with r ch show ?case by (simp add: isdir_def)
qed

lemma remove_parent_isdir: "remove r (p @ [c]) = Some r' \<Longrightarrow> isdir r' p"
proof (induction p arbitrary: r r')
  case Nil
  then show ?case by (cases r) (auto simp: isdir_def split: option.splits)
next
  case (Cons a p)
  obtain d cs where dc: "p @ [c] = d # cs" by (cases "p @ [c]") auto
  with Cons.prems obtain ds ch ch' where r: "r = Dir ds" and ch: "map_of ds a = Some ch"
    and rm: "remove ch (p @ [c]) = Some ch'" and r': "r' = Dir (AList.update a ch' ds)"
    by (cases r) (auto split: option.splits)
  from Cons.IH [OF rm] r' show ?case by (simp add: isdir_def update_conv')
qed

lemma write_file_in_dir:
  assumes "isdir r p" and "\<not> isdir r (p @ [c])"
  shows "\<exists>r'. write_file r (p @ [c]) b = Inr r' \<and> lookup r' (p @ [c]) = Some (File b)
             \<and> isdir r' p
             \<and> (\<forall>q. q \<parallel> (p @ [c]) \<longrightarrow> lookup r' q = lookup r q)
             \<and> (\<forall>q x. lookup r q = Some (File x) \<longrightarrow> q \<noteq> p @ [c] \<longrightarrow> lookup r' q = Some (File x))"
proof -
  from assms(1) obtain es where "lookup r p = Some (Dir es)"
    by (auto simp: isdir_def split: option.splits node.splits)
  from store_in_dir [OF this] obtain r' where st: "store r (p @ [c]) (File b) = Some r'" by blast
  have w: "write_file r (p @ [c]) b = Inr r'" using st assms(2) by (simp add: write_file_def)
  have keep: "lookup r' q = Some (File x)" if "lookup r q = Some (File x)" "q \<noteq> p @ [c]" for q x
  proof -
    have "\<not> prefix (p @ [c]) q"
      using lookup_prefix_isdir [OF that(1), of "p @ [c]"] that(2) assms(2) by auto
    from store_keeps_file [OF st that(1) this] show ?thesis .
  qed
  from w lookup_store_same [OF st] store_parent_isdir [OF st] keep
    lookup_store_other [OF st]
  show ?thesis by (auto simp: parallel_def)
qed

lemma move_file_rename:
  assumes "lookup r (p @ [c]) = Some (File b)" and "\<not> isdir r (p @ [d])"
  shows "\<exists>r'. move r (p @ [c]) (p @ [d]) = Inr r' \<and> lookup r' (p @ [d]) = Some (File b)
             \<and> (c \<noteq> d \<longrightarrow> lookup r' (p @ [c]) = None)"
proof (cases "c = d")
  case True
  with assms show ?thesis by (simp add: move_def isdir_def)
next
  case False
  from remove_existing [OF assms(1)] obtain r1 where rm: "remove r (p @ [c]) = Some r1" by auto
  from remove_parent_isdir [OF rm] obtain es where "lookup r1 p = Some (Dir es)"
    by (auto simp: isdir_def split: option.splits node.splits)
  from store_in_dir [OF this] obtain r2 where st: "store r1 (p @ [d]) (File b) = Some r2" by blast
  have par: "(p @ [c]) \<parallel> (p @ [d])" using False by (rule snoc_parallel_same)
  have "lookup r2 (p @ [c]) = lookup r1 (p @ [c])"
    using lookup_store_other [OF st, of "p @ [c]"] par by (simp add: parallel_def)
  then have gone: "lookup r2 (p @ [c]) = None" using lookup_remove_below [OF rm, of "p @ [c]"] by simp
  have nsp: "\<not> strict_prefix (p @ [c]) (p @ [d])"
    using par by (auto simp: parallel_def strict_prefix_def)
  have "move r (p @ [c]) (p @ [d]) = Inr r2"
    using assms False rm st nsp by (simp add: move_def isdir_def Let_def)
  with lookup_store_same [OF st] gone show ?thesis by simp
qed

subsection \<open>The canonical file\<close>

lemma identify_plain:
  assumes b: "lookup (fs st) file_path = Some (File b)"
    and t: "isdir (fs st) (tempdir env)"
    and ne: "file_path \<noteq> tempdir env @ [sha256 (identify_fileinfo env b)]"
    and nd: "\<not> isdir (fs st) (tempdir env @ [sha256 (identify_fileinfo env b)])"
    and plain: "ftype (identify_fileinfo env b) \<noteq> ''archive/cart''"
  shows "\<exists>st'. identify_file env file_path st =
                 (Inr (identify_fileinfo env b, tempdir env @ [sha256 (identify_fileinfo env b)]), st')
             \<and> lookup (fs st') (tempdir env @ [sha256 (identify_fileinfo env b)]) = Some (File b)
             \<and> lookup (fs st') file_path = Some (File b)"
proof -
  let ?T = "tempdir env @ [sha256 (identify_fileinfo env b)]"
  from write_file_in_dir [OF t nd, of b] obtain r' where
    w: "write_file (fs st) ?T b = Inr r'" and l: "lookup r' ?T = Some (File b)"
    and k: "\<forall>q x. lookup (fs st) q = Some (File x) \<longrightarrow> q \<noteq> ?T \<longrightarrow> lookup r' q = Some (File x)"
    by blast
  have "identify_file env file_path st = (Inr (identify_fileinfo env b, ?T), st\<lparr>fs := r'\<rparr>)"
    using b ne plain w
    by (simp add: identify_file_def fileinfo_at_def read_file_def copyfile_def Let_def)
  moreover have "lookup r' file_path = Some (File b)" using k b ne by blast
  ultimately show ?thesis using l by simp
qed

lemma identify_cart:
  assumes b: "lookup (fs st) file_path = Some (File b)"
    and t: "isdir (fs st) (tempdir env)"
    and ne: "file_path \<noteq> tempdir env @ [sha256 (identify_fileinfo env b)]"
    and nd: "\<not> isdir (fs st) (tempdir env @ [sha256 (identify_fileinfo env b)])"
    and cart: "ftype (identify_fileinfo env b) = ''archive/cart''"
    and ok: "snd (unpack_stream env b) = None"
    and nd': "\<not> isdir (fs st)
                (tempdir env @ [sha256 (identify_fileinfo env (fst (unpack_stream env b)))])"
  shows "\<exists>st'. identify_file env file_path st =
                 (Inr (identify_fileinfo env (fst (unpack_stream env b)),
                       tempdir env @ [sha256 (identify_fileinfo env (fst (unpack_stream env b)))]), st')
             \<and> lookup (fs st')
                  (tempdir env @ [sha256 (identify_fileinfo env (fst (unpack_stream env b)))])
                 = Some (File (fst (unpack_stream env b)))
             \<and> (sha256 (identify_fileinfo env (fst (unpack_stream env b)))
                   \<noteq> sha256 (identify_fileinfo env b) \<longrightarrow>
                  lookup (fs st') (tempdir env @ [sha256 (identify_fileinfo env b)]) = None)"
proof -
  let ?payload = "fst (unpack_stream env b)"
  let ?O = "tempdir env @ [sha256 (identify_fileinfo env b)]"
  let ?T = "tempdir env @ [sha256 (identify_fileinfo env ?payload)]"
  from write_file_in_dir [OF t nd, of "[]"] obtain r1 where
    w1: "write_file (fs st) ?O [] = Inr r1" and l1: "lookup r1 ?O = Some (File [])"
    and t1: "isdir r1 (tempdir env)"
    and f1: "\<forall>q. q \<parallel> ?O \<longrightarrow> lookup r1 q = lookup (fs st) q"
    and k1: "\<forall>q x. lookup (fs st) q = Some (File x) \<longrightarrow> q \<noteq> ?O \<longrightarrow> lookup r1 q = Some (File x)"
    by blast
  have rd: "lookup r1 file_path = Some (File b)" using k1 b ne by blast
  have nd1: "\<not> isdir r1 ?O" using l1 by (simp add: isdir_def)
  from write_file_in_dir [OF t1 nd1, of ?payload] obtain r2 where
    w2: "write_file r1 ?O ?payload = Inr r2" and l2: "lookup r2 ?O = Some (File ?payload)"
    and f2: "\<forall>q. q \<parallel> ?O \<longrightarrow> lookup r2 q = lookup r1 q"
    by blast
  have nd2: "\<not> isdir r2 ?T"
  proof (cases "?T = ?O")
    case True
    with l2 show ?thesis by (simp add: isdir_def)
  next
    case False
    then have "?T \<parallel> ?O" by (auto intro: snoc_parallel_same)
    with f1 f2 have "lookup r2 ?T = lookup (fs st) ?T" by simp
    with nd' show ?thesis by (simp add: isdir_def)
  qed
  from move_file_rename [OF l2 nd2] obtain r3 where
    m: "move r2 ?O ?T = Inr r3" and l3: "lookup r3 ?T = Some (File ?payload)"
    and g: "sha256 (identify_fileinfo env b) \<noteq> sha256 (identify_fileinfo env ?payload)
            \<longrightarrow> lookup r3 ?O = None"
    by blast
  have "identify_file env file_path st =
          (Inr (identify_fileinfo env ?payload, ?T), emit (Log INFO (UnCarted ?T)) (st\<lparr>fs := r3\<rparr>))"
    using b cart w1 rd w2 ok l2 m
    by (simp add: identify_file_def uncart_def fileinfo_at_def read_file_def Let_def)
  with l3 g show ?thesis by (auto simp: emit_def)
qed

text \<open>
  Claim C5. Let the input be a file with bytes \<open>b\<close>, let the temp directory exist, and
  let the path named by the input's own sha256 in it be neither a directory nor the input
  itself. The final payload is \<open>b\<close> for an input that is not a CaRT archive, and what
  \<^verbatim>\<open>unpack_stream\<close> decodes from \<open>b\<close> for one that is (decoding has to succeed, and
  the path named by the payload's sha256 must not be a directory). Then the stage
  completes; the file info it returns is that of the final payload, the target file is
  the path named by the payload's sha256 in the temp directory and holds exactly the
  payload; the intermediate file named by the wrapper's sha256 is gone; and an input that
  is not an archive is itself left as it was.
\<close>

theorem canonical_file_after_identify:
  assumes "lookup (fs st) file_path = Some (File b)"
    and "isdir (fs st) (tempdir env)"
    and "file_path \<noteq> tempdir env @ [sha256 (identify_fileinfo env b)]"
    and "\<not> isdir (fs st) (tempdir env @ [sha256 (identify_fileinfo env b)])"
    and "ftype (identify_fileinfo env b) = ''archive/cart'' \<longrightarrow>
           snd (unpack_stream env b) = None
         \<and> \<not> isdir (fs st)
               (tempdir env @ [sha256 (identify_fileinfo env (fst (unpack_stream env b)))])"
    and "payload = (if ftype (identify_fileinfo env b) = ''archive/cart''
                    then fst (unpack_stream env b) else b)"
  shows "fst (identify_file env file_path st) =
           Inr (identify_fileinfo env payload, tempdir env @ [sha256 (identify_fileinfo env payload)])
       \<and> lookup (fs (snd (identify_file env file_path st)))
             (tempdir env @ [sha256 (identify_fileinfo env payload)]) = Some (File payload)
       \<and> (sha256 (identify_fileinfo env payload) \<noteq> sha256 (identify_fileinfo env b) \<longrightarrow>
            lookup (fs (snd (identify_file env file_path st)))
              (tempdir env @ [sha256 (identify_fileinfo env b)]) = None)
       \<and> (ftype (identify_fileinfo env b) \<noteq> ''archive/cart'' \<longrightarrow>
            lookup (fs (snd (identify_file env file_path st))) file_path = Some (File b))"
proof (cases "ftype (identify_fileinfo env b) = ''archive/cart''")
  case True
  with assms(5,6) have ok: "snd (unpack_stream env b) = None"
    and nd: "\<not> isdir (fs st)
                (tempdir env @ [sha256 (identify_fileinfo env (fst (unpack_stream env b)))])"
    and p: "payload = fst (unpack_stream env b)"
    by auto
  from identify_cart [OF assms(1-4) True ok nd] True p show ?thesis by auto
next
  case False
  with assms(6) have p: "payload = b" by simp
  from identify_plain [OF assms(1-4) False] False p show ?thesis by auto
qed

theorem canonical_file_after_identify_witness:
  "fst (identify_file (demo_env None) [''samples'', ''a.bin''] (demo_state (demo_fs ''ok'' ''hello'')))
     = Inr (demo_fileinfo ''hello'', [''tmp'', ''sha-hello''])
   \<and> lookup (fs (snd (identify_file (demo_env None) [''samples'', ''a.bin'']
                         (demo_state (demo_fs ''ok'' ''hello''))))) [''tmp'', ''sha-hello'']
       = Some (File ''hello'')
   \<and> lookup (fs (snd (identify_file (demo_env None) [''samples'', ''a.bin'']
                         (demo_state (demo_fs ''ok'' ''hello''))))) [''samples'', ''a.bin'']
       = Some (File ''hello'')
   \<and> fst (identify_file (demo_env None) [''samples'', ''a.bin'']
            (demo_state (demo_fs ''ok'' ''CARThello'')))
       = Inr (demo_fileinfo ''hello'', [''tmp'', ''sha-hello''])
   \<and> lookup (fs (snd (identify_file (demo_env None) [''samples'', ''a.bin'']
                         (demo_state (demo_fs ''ok'' ''CARThello''))))) [''tmp'', ''sha-hello'']
       = Some (File ''hello'')
   \<and> lookup (fs (snd (identify_file (demo_env None) [''samples'', ''a.bin'']
                         (demo_state (demo_fs ''ok'' ''CARThello''))))) [''tmp'', ''sha-CARThello'']
       = None"
proof -
  let ?e = "demo_env None"
  let ?p = "[''samples'', ''a.bin'']"
  have e: "tempdir ?e = [''tmp'']" "identify_fileinfo ?e = demo_fileinfo"
    "unpack_stream ?e ''CARThello'' = (''hello'', None)"
    by (simp_all add: demo_env_def)
  have plain:
    "lookup (fs (demo_state (demo_fs ''ok'' ''hello''))) ?p = Some (File ''hello'')"
    "isdir (fs (demo_state (demo_fs ''ok'' ''hello''))) (tempdir ?e)"
    "?p \<noteq> tempdir ?e @ [sha256 (identify_fileinfo ?e ''hello'')]"
    "\<not> isdir (fs (demo_state (demo_fs ''ok'' ''hello'')))
         (tempdir ?e @ [sha256 (identify_fileinfo ?e ''hello'')])"
    "ftype (identify_fileinfo ?e ''hello'') = ''archive/cart'' \<longrightarrow>
       snd (unpack_stream ?e ''hello'') = None
     \<and> \<not> isdir (fs (demo_state (demo_fs ''ok'' ''hello'')))
           (tempdir ?e @ [sha256 (identify_fileinfo ?e (fst (unpack_stream ?e ''hello'')))])"
    "''hello'' = (if ftype (identify_fileinfo ?e ''hello'') = ''archive/cart''
                  then fst (unpack_stream ?e ''hello'') else ''hello'')"
    by (simp_all add: e isdir_def demo_state_def demo_fs_def demo_fileinfo_def)
  have cart:
    "lookup (fs (demo_state (demo_fs ''ok'' ''CARThello''))) ?p = Some (File ''CARThello'')"
    "isdir (fs (demo_state (demo_fs ''ok'' ''CARThello''))) (tempdir ?e)"
    "?p \<noteq> tempdir ?e @ [sha256 (identify_fileinfo ?e ''CARThello'')]"
    "\<not> isdir (fs (demo_state (demo_fs ''ok'' ''CARThello'')))
         (tempdir ?e @ [sha256 (identify_fileinfo ?e ''CARThello'')])"
    "ftype (identify_fileinfo ?e ''CARThello'') = ''archive/cart'' \<longrightarrow>
       snd (unpack_stream ?e ''CARThello'') = None
     \<and> \<not> isdir (fs (demo_state (demo_fs ''ok'' ''CARThello'')))
           (tempdir ?e @ [sha256 (identify_fileinfo ?e (fst (unpack_stream ?e ''CARThello'')))])"
    "''hello'' = (if ftype (identify_fileinfo ?e ''CARThello'') = ''archive/cart''
                  then fst (unpack_stream ?e ''CARThello'') else ''CARThello'')"
    by (simp_all add: e isdir_def demo_state_def demo_fs_def demo_fileinfo_def)
  have s: "sha256 (demo_fileinfo ''hello'') = ''sha-hello''"
    "sha256 (demo_fileinfo ''CARThello'') = ''sha-CARThello''"
    "ftype (demo_fileinfo ''hello'') \<noteq> ''archive/cart''"
    by (simp_all add: demo_fileinfo_def)
  from canonical_file_after_identify [OF plain] canonical_file_after_identify [OF cart]
  show ?thesis by (simp add: e s)
qed

end
